theory Spec2Isabelle
  imports Main
begin

section \<open>Chapter-13 notebook: the bag-of-words layer\<close>

text \<open>
  \<^verbatim>\<open>
  class BagOfWords(keras.layers.Layer):
      def __init__(self, n_tokens, dtype=tf.int32, **kwargs):
          super().__init__(dtype=dtype, **kwargs)
          self.n_tokens = n_tokens

      def call(self, inputs):
          one_hot = tf.one_hot(inputs, self.n_tokens)
          return tf.reduce_sum(one_hot, axis=1)[:, 1:]
  \<close>
  A 2-D integer tensor is a list of rows. \<open>tf.one_hot\<close> appends an axis of length
  \<open>depth\<close> holding 1.0 at the position of the index and 0.0 elsewhere (an index
  outside \<open>[0, depth)\<close> gives a row of zeros), and \<open>tf.reduce_sum\<close> adds these
  entries in \<open>float32\<close> arithmetic.

  The only \<open>float32\<close> values that occur are integers that are not negative: \<open>F32 v\<close>
  is the \<open>float32\<close> of value \<open>v\<close>. A \<open>float32\<close> has a significand of 24 bits, so
  every integer up to \<open>2 ^ 24 = 16777216\<close> is a \<open>float32\<close>, and above it only the
  multiples of the spacing \<open>f32_ulp\<close> are. The sum of two \<open>float32\<close> is the exact sum
  rounded to the nearest \<open>float32\<close>, a tie going to the even significand. Overflow to
  infinity, far above any sum of a one-hot tensor, is left out.
\<close>

datatype float32 = F32 int

function f32_ulp :: "int \<Rightarrow> int" where
  "f32_ulp v = (if v < 16777216 then 1 else 2 * f32_ulp (v div 2))"
  by pat_completeness auto
termination
  by (relation "measure nat") auto

declare f32_ulp.simps [simp del]

definition f32_round :: "int \<Rightarrow> int" where
  "f32_round v =
     (let u = f32_ulp v; q = v div u; lo = q * u; r = v - lo
      in if 2 * r < u then lo
         else if u < 2 * r then lo + u
         else if even q then lo else lo + u)"

fun f32_add :: "float32 \<Rightarrow> float32 \<Rightarrow> float32" where
  "f32_add (F32 x) (F32 y) = F32 (f32_round (x + y))"

record BagOfWords =
  n_tokens :: nat

definition one_hot :: "int list list \<Rightarrow> nat \<Rightarrow> float32 list list list" where
  "one_hot indices depth =
     map (map (\<lambda>idx. map (\<lambda>j. if idx = int j then F32 1 else F32 0) [0..<depth])) indices"

text \<open>
  \<open>tf.reduce_sum(_, axis=1)\<close> on a tensor of shape \<open>[batch, seq, depth]\<close>. The entries
  are added one after the other along the axis. A library that adds them in another
  order gives the same result as long as the exact sum is at most \<open>2 ^ 24\<close>, since
  then no partial sum is rounded.
\<close>

definition reduce_sum_axis1 :: "nat \<Rightarrow> float32 list list list \<Rightarrow> float32 list list" where
  "reduce_sum_axis1 depth t =
     map (\<lambda>row. map (\<lambda>j. foldl f32_add (F32 0) (map (\<lambda>v. v ! j) row)) [0..<depth]) t"

definition call :: "BagOfWords \<Rightarrow> int list list \<Rightarrow> float32 list list" where
  "call self inputs =
     map (drop 1) (reduce_sum_axis1 (n_tokens self) (one_hot inputs (n_tokens self)))"

section \<open>Chapter-13 notebook: text preprocessing and the vocabulary\<close>

text \<open>
  TensorFlow strings are byte strings: a \<open>char\<close> is one byte. The notebook's functions
  call into the TensorFlow library; the parts of the library whose behaviour is fixed by
  an encoding that is not part of the notebook are collected in a record of functions
  (\<open>tf_lib\<close>) which the notebook's functions receive as their first argument.
\<close>

type_synonym bytes = string

datatype dtype = DT_UINT8 | DT_INT64 | DT_STRING

datatype error = InvalidArgumentError | IndexError | ValueError

record tensor =
  t_dtype :: dtype
  t_shape :: "nat list"
  t_data :: "int list"

datatype feature = BytesList "bytes list" | Int64List "int list"

type_synonym example = "(string \<times> feature) list"

record tf_lib =
  utf8_len :: "bytes \<Rightarrow> nat"
  serialize_tensor :: "tensor \<Rightarrow> bytes"
  parse_tensor :: "bytes \<Rightarrow> dtype \<Rightarrow> error + tensor"
  SerializeToString :: "example \<Rightarrow> bytes"
  ParseFromString :: "bytes \<Rightarrow> example option"

text \<open>
  \<^descr>[\<open>utf8_len\<close>] the regular-expression engine reads its subject as UTF-8: on a string
  whose first byte is not ASCII, \<open>utf8_len\<close> is the number of bytes of the code point
  encoded at the head, or 0 when no valid encoding starts there.
  \<^descr>[\<open>serialize_tensor\<close>, \<open>parse_tensor\<close>] \<open>tf.io.serialize_tensor\<close> and
  \<open>tf.io.parse_tensor\<close> (which raises on bytes that are not a tensor of the requested
  type).
  \<^descr>[\<open>SerializeToString\<close>, \<open>ParseFromString\<close>] the protocol-buffer encoding of an
  \<open>Example\<close> message and its decoder.
\<close>

definition pad :: bytes where
  "pad = ''<pad>''"

text \<open>\<open>tf.strings.substr(X, 0, 300)\<close>: at most the first 300 bytes.\<close>

definition substr :: "bytes \<Rightarrow> nat \<Rightarrow> nat \<Rightarrow> bytes" where
  "substr s pos len = take len (drop pos s)"

text \<open>\<open>tf.strings.lower\<close> with the default encoding changes the bytes \<open>A\<close>..\<open>Z\<close> only.\<close>

definition lower_char :: "char \<Rightarrow> char" where
  "lower_char c =
     (if 65 \<le> (of_char c :: nat) \<and> (of_char c :: nat) \<le> 90
      then char_of ((of_char c :: nat) + 32) else c)"

definition lower :: "bytes \<Rightarrow> bytes" where
  "lower s = map lower_char s"

definition is_az :: "char \<Rightarrow> bool" where
  "is_az c \<longleftrightarrow> 97 \<le> (of_char c :: nat) \<and> (of_char c :: nat) \<le> 122"

definition is_ascii :: "char \<Rightarrow> bool" where
  "is_ascii c \<longleftrightarrow> (of_char c :: nat) < 128"

text \<open>The class \<open>\s\<close> of the regular-expression engine: tab, newline, form feed, carriage return, space.\<close>

definition is_re_space :: "char \<Rightarrow> bool" where
  "is_re_space c \<longleftrightarrow> (of_char c :: nat) \<in> {9, 10, 12, 13, 32}"

text \<open>The separators of \<open>tf.strings.split\<close> without \<open>sep\<close>: the six ASCII whitespace bytes.\<close>

definition is_space :: "char \<Rightarrow> bool" where
  "is_space c \<longleftrightarrow> (of_char c :: nat) \<in> {9, 10, 11, 12, 13, 32}"

text \<open>
  A match of \<open><br\s*/?>\<close> at the head of a string: the rest of the string after the
  match. The match at a position is unique: the whitespace run is followed by a byte
  that is not whitespace, and a \<open>/\<close> is not a \<open>>\<close>.
\<close>

definition match_br :: "bytes \<Rightarrow> bytes option" where
  "match_br s =
     (case s of
        c1 # c2 # c3 # rest \<Rightarrow>
          if c1 = CHR ''<'' \<and> c2 = CHR ''b'' \<and> c3 = CHR ''r'' then
            (let r1 = dropWhile is_re_space rest;
                 r2 = (case r1 of [] \<Rightarrow> r1 | c # r \<Rightarrow> if c = CHR ''/'' then r else r1)
             in case r2 of [] \<Rightarrow> None | c # r \<Rightarrow> if c = CHR ''>'' then Some r else None)
          else None
      | _ \<Rightarrow> None)"

lemma match_br_shorter: "match_br s = Some r \<Longrightarrow> length r < length s"
proof -
  assume m: "match_br s = Some r"
  then obtain c1 c2 c3 rest where s: "s = c1 # c2 # c3 # rest"
    by (auto simp: match_br_def split: list.splits)
  define r1 where "r1 = dropWhile is_re_space rest"
  define r2 where "r2 = (case r1 of [] \<Rightarrow> r1 | c # r \<Rightarrow> if c = CHR ''/'' then r else r1)"
  have l1: "length r1 \<le> length rest"
    unfolding r1_def by (rule length_dropWhile_le)
  have l2: "length r2 \<le> length r1"
    unfolding r2_def by (cases r1) auto
  from m s have "(case r2 of [] \<Rightarrow> None | c # r \<Rightarrow> if c = CHR ''>'' then Some r else None) = Some r"
    unfolding r2_def r1_def match_br_def
    by (simp add: Let_def split: if_splits)
  then have "\<exists>c. r2 = c # r"
    by (cases r2) (simp_all split: if_splits)
  then have "length r < length r2" by auto
  with l1 l2 s show ?thesis by simp
qed

text \<open>
  \<open>tf.strings.regex_replace(Z, b'<br\s*/?>', b' ')\<close>: every match, from the left and without
  overlap, becomes one space.
\<close>

function regex_replace_br :: "bytes \<Rightarrow> bytes" where
  "regex_replace_br s =
     (case s of
        [] \<Rightarrow> []
      | c # cs \<Rightarrow>
          (case match_br s of
             Some rest \<Rightarrow> CHR '' '' # regex_replace_br rest
           | None \<Rightarrow> c # regex_replace_br cs))"
  by pat_completeness auto
termination
  by (relation "measure length") (auto dest: match_br_shorter)

text \<open>
  \<open>tf.strings.regex_replace(Z, b'[^a-z]', b' ')\<close>. A byte \<open>a\<close>..\<open>z\<close> stays; any other
  ASCII byte becomes a space; a code point of several bytes becomes one space; a byte
  that starts no valid encoding matches nothing and stays. The second argument counts
  the bytes of a matched code point that are still to be skipped.
\<close>

fun regex_replace_not_az :: "(bytes \<Rightarrow> nat) \<Rightarrow> nat \<Rightarrow> bytes \<Rightarrow> bytes" where
  "regex_replace_not_az rl skip [] = []"
| "regex_replace_not_az rl (Suc k) (c # cs) = regex_replace_not_az rl k cs"
| "regex_replace_not_az rl 0 (c # cs) =
     (if is_az c then c # regex_replace_not_az rl 0 cs
      else if is_ascii c then CHR '' '' # regex_replace_not_az rl 0 cs
      else (case rl (c # cs) of
              0 \<Rightarrow> c # regex_replace_not_az rl 0 cs
            | Suc k \<Rightarrow> CHR '' '' # regex_replace_not_az rl k cs))"

text \<open>
  \<open>tf.strings.split(Z)\<close>: the maximal runs of bytes that are not whitespace. The first
  argument is the token being read.
\<close>

fun split_ws :: "bytes \<Rightarrow> bytes \<Rightarrow> bytes list" where
  "split_ws cur [] = (if cur = [] then [] else [cur])"
| "split_ws cur (c # cs) =
     (if is_space c then (if cur = [] then split_ws [] cs else cur # split_ws [] cs)
      else split_ws (cur @ [c]) cs)"

text \<open>
  \<open>RaggedTensor.to_tensor(shape=[rows, cols], default_value=d)\<close>: each axis is cut or
  filled to the requested length.
\<close>

definition to_tensor :: "'a list list \<Rightarrow> nat \<times> nat \<Rightarrow> 'a \<Rightarrow> 'a list list" where
  "to_tensor Z shape d =
     map (\<lambda>row. take (snd shape) row @ replicate (snd shape - length row) d)
       (take (fst shape) Z @ replicate (fst shape - length Z) [])"

text \<open>
  \<^verbatim>\<open>
  def preprocess_text(X_batch, n_words=50):
      shape = tf.shape(X_batch) * tf.constant([1, 0]) + tf.constant([0, 50])
      Z = tf.strings.substr(X_batch, 0, 300)
      Z = tf.strings.lower(Z)
      Z = tf.strings.regex_replace(Z, b'<br\\s*/?>', b' ')
      Z = tf.strings.regex_replace(Z, b'[^a-z]', b' ')
      Z = tf.strings.split(Z)
      return Z.to_tensor(shape=shape, default_value=b'<pad>')
  \<close>
  \<open>X_batch\<close> is a rank-1 string tensor, so \<open>tf.shape(X_batch)\<close> is the one-element
  vector of its length, broadcast against the two-element constants.
\<close>

definition preprocess_text :: "tf_lib \<Rightarrow> bytes list \<Rightarrow> int \<Rightarrow> bytes list list" where
  "preprocess_text L X_batch n_words =
     (let shape = (length X_batch * 1 + 0, length X_batch * 0 + 50);
          Z = map (\<lambda>s. substr s 0 300) X_batch;
          Z = map lower Z;
          Z = map regex_replace_br Z;
          Z = map (regex_replace_not_az (utf8_len L) 0) Z;
          Z = map (split_ws []) Z
      in to_tensor Z shape pad)"

text \<open>
  A \<open>collections.Counter\<close> is a dictionary in insertion order: an association list.
  \<open>counter[word] += 1\<close> adds one to the count of a key that is present and appends a
  new key with count 1.
\<close>

type_synonym counter = "(bytes \<times> nat) list"

fun counter_incr :: "bytes \<Rightarrow> counter \<Rightarrow> counter" where
  "counter_incr w [] = [(w, 1)]"
| "counter_incr w ((k, c) # rest) =
     (if k = w then (k, c + 1) # rest else (k, c) # counter_incr w rest)"

text \<open>
  \<open>Counter.most_common(n)\<close> is \<open>heapq.nlargest(n, items, key=count)\<close>, that is
  \<open>sorted(items, key=count, reverse=True)[:n]\<close>: a stable sort by decreasing count
  (ties stay in insertion order), then the first \<open>n\<close> items (none when \<open>n \<le> 0\<close>).
\<close>

definition most_common :: "int \<Rightarrow> counter \<Rightarrow> counter" where
  "most_common n cnt = take (nat n) (sort_key (\<lambda>(w, c). - int c) cnt)"

text \<open>
  \<^verbatim>\<open>
  def get_vocabulary(data_sample, max_size=1000):
      preprocessed_reviews = preprocess_text(data_sample).numpy()
      counter = Counter()
      for words in preprocessed_reviews:
          for word in words:
              if word != b'<pad>':
                  counter[word] += 1
      return [b'<pad>'] + [word for word, count in counter.most_common(max_size)]
  \<close>
\<close>

definition count_words :: "bytes list list \<Rightarrow> counter" where
  "count_words preprocessed_reviews =
     fold (\<lambda>words counter.
             fold (\<lambda>word counter. if word \<noteq> pad then counter_incr word counter else counter)
               words counter)
       preprocessed_reviews []"

definition get_vocabulary :: "tf_lib \<Rightarrow> bytes list \<Rightarrow> int \<Rightarrow> bytes list" where
  "get_vocabulary L data_sample max_size =
     (let preprocessed_reviews = preprocess_text L data_sample 50;
          counter = count_words preprocessed_reviews
      in [pad] @ map fst (most_common max_size counter))"

section \<open>Chapter-13 notebook: writing and reading TFRecord files\<close>

text \<open>
  \<^verbatim>\<open>
  def create_example(image, label):
      image_data = tf.io.serialize_tensor(image)

      return Example(
          features=Features(
              feature={
                  'image': Feature(bytes_list=BytesList(value=[image_data.numpy()])),
                  'label': Feature(int64_list=Int64List(value=[label]))
              }))
  \<close>
  An \<open>Example\<close> is its feature dictionary, in the order the dictionary is written.
  The label is the value of an integer tensor. \<open>Int64List(value=[label])\<close> raises
  \<open>ValueError\<close> for a value that is not a signed 64-bit integer, and then
  \<open>create_example\<close> raises.
\<close>

definition int64 :: "int \<Rightarrow> bool" where
  "int64 v \<longleftrightarrow> - 9223372036854775808 \<le> v \<and> v < 9223372036854775808"

definition new_Int64List :: "int list \<Rightarrow> error + feature" where
  "new_Int64List vs = (if list_all int64 vs then Inr (Int64List vs) else Inl ValueError)"

definition create_example :: "tf_lib \<Rightarrow> tensor \<Rightarrow> int \<Rightarrow> error + example" where
  "create_example L img label =
     (let image_data = serialize_tensor L img
      in case new_Int64List [label] of
           Inl e \<Rightarrow> Inl e
         | Inr int64_list \<Rightarrow> Inr [(''image'', BytesList [image_data]), (''label'', int64_list)])"

text \<open>
  The format \<open>{idx:02d}\<close> of a number that is not negative: its decimal digits, filled
  from the left with \<open>0\<close> to two characters.
\<close>

definition digit_char :: "nat \<Rightarrow> char" where
  "digit_char d = char_of (48 + d)"

fun digits :: "nat \<Rightarrow> string" where
  "digits n = (if n < 10 then [digit_char n] else digits (n div 10) @ [digit_char (n mod 10)])"

declare digits.simps [simp del]

definition format_02d :: "nat \<Rightarrow> string" where
  "format_02d idx = (let s = digits idx in replicate (2 - length s) CHR ''0'' @ s)"

definition filepath :: "string \<Rightarrow> nat \<Rightarrow> string" where
  "filepath name idx = name @ ''_'' @ format_02d idx @ ''.tfrecord''"

text \<open>
  The file system holds, under each path, the records of a TFRecord file in the order
  they were written. \<open>tf.io.TFRecordWriter(path)\<close> creates the file or empties it;
  \<open>write\<close> appends one record to the writer's file. A writer is the path it was
  opened on. The state is the file system once the \<open>ExitStack\<close> has closed every
  writer, which it also does when the loop raises. Failures of the operating system
  (a missing directory, a full disk) are not part of the model.
\<close>

type_synonym filesystem = "string \<rightharpoonup> bytes list"

definition TFRecordWriter :: "string \<Rightarrow> filesystem \<Rightarrow> filesystem" where
  "TFRecordWriter path fs = fs(path \<mapsto> [])"

definition writer_write :: "string \<Rightarrow> bytes \<Rightarrow> filesystem \<Rightarrow> filesystem" where
  "writer_write path rec fs =
     fs(path \<mapsto> (case fs path of None \<Rightarrow> [rec] | Some records \<Rightarrow> records @ [rec]))"

text \<open>
  \<^verbatim>\<open>
  def save_tfrecords(name, data, n_records=20):
      filepaths = [f"{name}_{idx:02d}.tfrecord" for idx in range(n_records)]

      with ExitStack() as stack:
          writers = [stack.enter_context(tf.io.TFRecordWriter(path)) for path in filepaths]

          for idx, (image, label) in data.enumerate():
              file_idx = idx % n_records
              writers[file_idx].write(create_example(image, label).SerializeToString())

      return filepaths
  \<close>
  \<open>idx\<close> is an integer tensor: \<open>idx % n_records\<close> is the floored remainder, which
  raises when \<open>n_records\<close> is 0. \<open>writers[file_idx]\<close> is Python's list indexing: a
  negative index counts from the end and an index out of range raises. The writer is
  looked up before the argument of \<open>write\<close> is evaluated; when \<open>create_example\<close>
  raises, nothing is written and the loop ends with that error.
\<close>

fun write_examples ::
  "tf_lib \<Rightarrow> string list \<Rightarrow> int \<Rightarrow> (nat \<times> tensor \<times> int) list \<Rightarrow> filesystem
   \<Rightarrow> error option \<times> filesystem" where
  "write_examples L writers n_records [] fs = (None, fs)"
| "write_examples L writers n_records ((idx, img, label) # data) fs =
     (if n_records = 0 then (Some InvalidArgumentError, fs)
      else
        (let file_idx = int idx mod n_records;
             len = int (length writers);
             j = (if file_idx < 0 then len + file_idx else file_idx)
         in if 0 \<le> j \<and> j < len
            then (case create_example L img label of
                    Inl e \<Rightarrow> (Some e, fs)
                  | Inr ex \<Rightarrow>
                      write_examples L writers n_records data
                        (writer_write (writers ! nat j) (SerializeToString L ex) fs))
            else (Some IndexError, fs)))"

definition save_tfrecords ::
  "tf_lib \<Rightarrow> string \<Rightarrow> (tensor \<times> int) list \<Rightarrow> int \<Rightarrow> filesystem
   \<Rightarrow> (error + string list) \<times> filesystem" where
  "save_tfrecords L name data n_records fs =
     (let filepaths = map (filepath name) [0..<nat n_records];
          writers = filepaths;
          fs1 = fold TFRecordWriter filepaths fs;
          (err, fs2) = write_examples L writers n_records (enumerate 0 data) fs1
      in (case err of None \<Rightarrow> Inr filepaths | Some e \<Rightarrow> Inl e, fs2))"

text \<open>The default \<open>n_records=20\<close>, as in \<open>save_tfrecords('fashion_mnist-train', train_set)\<close>.\<close>

definition save_tfrecords_default ::
  "tf_lib \<Rightarrow> string \<Rightarrow> (tensor \<times> int) list \<Rightarrow> filesystem
   \<Rightarrow> (error + string list) \<times> filesystem" where
  "save_tfrecords_default L name data fs = save_tfrecords L name data 20 fs"

text \<open>
  \<open>tf.io.parse_single_example(serialized, features)\<close> decodes the \<open>Example\<close> and reads
  each described feature. For a \<open>FixedLenFeature(shape, dtype, default_value)\<close>: a
  feature that is absent takes the default value, and the call raises when there is
  none; a feature that is present must hold values of the described type, as many as
  the shape has elements.
\<close>

datatype parsed = PBytes "bytes list" | PInt64 "int list"

datatype feature_spec = FixedLenFeature "nat list" dtype "parsed option"

fun parse_feature :: "example \<Rightarrow> feature_spec \<Rightarrow> string \<Rightarrow> error + parsed" where
  "parse_feature ex (FixedLenFeature shape dt default_value) key =
     (case map_of ex key of
        None \<Rightarrow> (case default_value of None \<Rightarrow> Inl InvalidArgumentError | Some d \<Rightarrow> Inr d)
      | Some (BytesList vs) \<Rightarrow>
          if dt = DT_STRING \<and> length vs = prod_list shape then Inr (PBytes vs)
          else Inl InvalidArgumentError
      | Some (Int64List vs) \<Rightarrow>
          if dt = DT_INT64 \<and> length vs = prod_list shape then Inr (PInt64 vs)
          else Inl InvalidArgumentError)"

fun parse_features ::
  "example \<Rightarrow> (string \<times> feature_spec) list \<Rightarrow> error + (string \<times> parsed) list" where
  "parse_features ex [] = Inr []"
| "parse_features ex ((key, spec) # rest) =
     (case parse_feature ex spec key of
        Inl e \<Rightarrow> Inl e
      | Inr v \<Rightarrow> (case parse_features ex rest of Inl e \<Rightarrow> Inl e | Inr vs \<Rightarrow> Inr ((key, v) # vs)))"

definition parse_single_example ::
  "tf_lib \<Rightarrow> bytes \<Rightarrow> (string \<times> feature_spec) list \<Rightarrow> error + (string \<times> parsed) list" where
  "parse_single_example L serialized features =
     (case ParseFromString L serialized of
        None \<Rightarrow> Inl InvalidArgumentError
      | Some ex \<Rightarrow> parse_features ex features)"

text \<open>\<open>tf.reshape\<close> keeps the elements and raises unless the new shape has as many.\<close>

definition reshape :: "tensor \<Rightarrow> nat list \<Rightarrow> error + tensor" where
  "reshape t shape =
     (if prod_list (t_shape t) = prod_list shape then Inr (t\<lparr>t_shape := shape\<rparr>)
      else Inl InvalidArgumentError)"

text \<open>
  \<^verbatim>\<open>
  def preprocess(tfrecord):
      feature_descriptions = {
          'image': tf.io.FixedLenFeature([], tf.string, default_value=""),
          'label': tf.io.FixedLenFeature([], tf.int64, default_value=-1)
      }

      example = tf.io.parse_single_example(tfrecord, feature_descriptions)
      image = tf.io.parse_tensor(example['image'], out_type=tf.uint8)

      return tf.reshape(image, shape=[28, 28]), example['label']
  \<close>
\<close>

definition feature_descriptions :: "(string \<times> feature_spec) list" where
  "feature_descriptions =
     [(''image'', FixedLenFeature [] DT_STRING (Some (PBytes ['''']))),
      (''label'', FixedLenFeature [] DT_INT64 (Some (PInt64 [- 1])))]"

definition preprocess :: "tf_lib \<Rightarrow> bytes \<Rightarrow> error + tensor \<times> int" where
  "preprocess L tfrecord =
     (case parse_single_example L tfrecord feature_descriptions of
        Inl e \<Rightarrow> Inl e
      | Inr example \<Rightarrow>
          (case (map_of example ''image'', map_of example ''label'') of
             (Some (PBytes [image_bytes]), Some (PInt64 [label])) \<Rightarrow>
               (case parse_tensor L image_bytes DT_UINT8 of
                  Inl e \<Rightarrow> Inl e
                | Inr img \<Rightarrow>
                    (case reshape img [28, 28] of
                       Inl e \<Rightarrow> Inl e
                     | Inr reshaped \<Rightarrow> Inr (reshaped, label)))
           | _ \<Rightarrow> Inl InvalidArgumentError))"

section \<open>A reference instance of the library interface\<close>

text \<open>
  A small, concrete encoding that instantiates \<open>tf_lib\<close>, so that the functions above
  can be run on concrete inputs. Lengths are written on two bytes, tensor elements and
  dimensions on one byte (enough for \<open>uint8\<close> images of 28 by 28), 64-bit integers on
  eight bytes.
\<close>

definition is_cont :: "char \<Rightarrow> bool" where
  "is_cont c \<longleftrightarrow> 128 \<le> (of_char c :: nat) \<and> (of_char c :: nat) < 192"

definition ref_utf8_len :: "bytes \<Rightarrow> nat" where
  "ref_utf8_len s =
     (case s of
        [] \<Rightarrow> 0
      | c # cs \<Rightarrow>
          (let n = (of_char c :: nat) in
           if 194 \<le> n \<and> n \<le> 223 \<and> 1 \<le> length cs \<and> list_all is_cont (take 1 cs) then 2
           else if 224 \<le> n \<and> n \<le> 239 \<and> 2 \<le> length cs \<and> list_all is_cont (take 2 cs) then 3
           else if 240 \<le> n \<and> n \<le> 244 \<and> 3 \<le> length cs \<and> list_all is_cont (take 3 cs) then 4
           else 0))"

definition frame :: "bytes \<Rightarrow> bytes" where
  "frame s = [char_of (length s div 256), char_of (length s mod 256)] @ s"

fun unframe :: "bytes \<Rightarrow> (bytes \<times> bytes) option" where
  "unframe (h # l # rest) =
     (let n = (of_char h :: nat) * 256 + of_char l
      in if n \<le> length rest then Some (take n rest, drop n rest) else None)"
| "unframe _ = None"

fun unframe_all :: "nat \<Rightarrow> bytes \<Rightarrow> bytes list option" where
  "unframe_all fuel [] = Some []"
| "unframe_all 0 (c # cs) = None"
| "unframe_all (Suc fuel) (c # cs) =
     (case unframe (c # cs) of
        None \<Rightarrow> None
      | Some (x, rest) \<Rightarrow> map_option ((#) x) (unframe_all fuel rest))"

definition dtype_code :: "dtype \<Rightarrow> nat" where
  "dtype_code dt = (case dt of DT_UINT8 \<Rightarrow> 4 | DT_STRING \<Rightarrow> 7 | DT_INT64 \<Rightarrow> 9)"

definition ref_serialize_tensor :: "tensor \<Rightarrow> bytes" where
  "ref_serialize_tensor t =
     char_of (dtype_code (t_dtype t)) # frame (map char_of (t_shape t))
       @ map (\<lambda>v. char_of (nat v)) (t_data t)"

definition ref_parse_tensor :: "bytes \<Rightarrow> dtype \<Rightarrow> error + tensor" where
  "ref_parse_tensor s out_type =
     (case s of
        [] \<Rightarrow> Inl InvalidArgumentError
      | c # rest \<Rightarrow>
          if (of_char c :: nat) \<noteq> dtype_code out_type then Inl InvalidArgumentError
          else
            (case unframe rest of
               None \<Rightarrow> Inl InvalidArgumentError
             | Some (dims, payload) \<Rightarrow>
                 if prod_list (map of_char dims) = length payload
                 then Inr \<lparr>t_dtype = out_type, t_shape = map of_char dims,
                           t_data = map (\<lambda>c. int (of_char c)) payload\<rparr>
                 else Inl InvalidArgumentError))"

definition enc_int64 :: "int \<Rightarrow> bytes" where
  "enc_int64 v = map (\<lambda>k. char_of ((v mod 2 ^ 64) div 256 ^ k)) [7, 6, 5, 4, 3, 2, 1, 0]"

definition dec_int64 :: "bytes \<Rightarrow> int" where
  "dec_int64 s =
     (let n = foldl (\<lambda>a c. a * 256 + of_char c) (0 :: int) s
      in if 2 ^ 63 \<le> n then n - 2 ^ 64 else n)"

fun chunks8 :: "bytes \<Rightarrow> bytes list option" where
  "chunks8 [] = Some []"
| "chunks8 (a # b # c # d # e # f # g # h # rest) =
     map_option ((#) [a, b, c, d, e, f, g, h]) (chunks8 rest)"
| "chunks8 _ = None"

fun feature_tag :: "feature \<Rightarrow> char" where
  "feature_tag (BytesList vs) = CHR ''B''"
| "feature_tag (Int64List vs) = CHR ''I''"

fun feature_payload :: "feature \<Rightarrow> bytes" where
  "feature_payload (BytesList vs) = concat (map frame vs)"
| "feature_payload (Int64List vs) = concat (map enc_int64 vs)"

definition enc_feature :: "feature \<Rightarrow> bytes" where
  "enc_feature f = feature_tag f # frame (feature_payload f)"

definition dec_feature :: "char \<Rightarrow> bytes \<Rightarrow> feature option" where
  "dec_feature tag payload =
     (if tag = CHR ''B'' then map_option BytesList (unframe_all (length payload) payload)
      else if tag = CHR ''I'' then map_option (\<lambda>cs. Int64List (map dec_int64 cs)) (chunks8 payload)
      else None)"

definition ref_SerializeToString :: "example \<Rightarrow> bytes" where
  "ref_SerializeToString ex = concat (map (\<lambda>(key, f). frame key @ enc_feature f) ex)"

fun dec_example :: "nat \<Rightarrow> bytes \<Rightarrow> example option" where
  "dec_example fuel [] = Some []"
| "dec_example 0 (c # cs) = None"
| "dec_example (Suc fuel) (c # cs) =
     (case unframe (c # cs) of
        None \<Rightarrow> None
      | Some (key, r1) \<Rightarrow>
          (case r1 of
             [] \<Rightarrow> None
           | tag # r2 \<Rightarrow>
               (case unframe r2 of
                  None \<Rightarrow> None
                | Some (payload, r3) \<Rightarrow>
                    (case dec_feature tag payload of
                       None \<Rightarrow> None
                     | Some f \<Rightarrow> map_option ((#) (key, f)) (dec_example fuel r3)))))"

definition ref_ParseFromString :: "bytes \<Rightarrow> example option" where
  "ref_ParseFromString s = dec_example (length s) s"

definition ref_lib :: tf_lib where
  "ref_lib = \<lparr>utf8_len = ref_utf8_len,
              serialize_tensor = ref_serialize_tensor,
              parse_tensor = ref_parse_tensor,
              SerializeToString = ref_SerializeToString,
              ParseFromString = ref_ParseFromString\<rparr>"

text \<open>A 28 by 28 \<open>uint8\<close> image and the two reviews of the notebook's own example.\<close>

definition image0 :: tensor where
  "image0 = \<lparr>t_dtype = DT_UINT8, t_shape = [28, 28],
             t_data = map (\<lambda>i. int (i mod 256)) [0..<784]\<rparr>"

definition X_example :: "bytes list" where
  "X_example = [''It's a great, great movie! I loved it.'', ''It was terrible, run away!!!'']"

text \<open>A dataset of four small tensors with their labels.\<close>

definition data4 :: "(tensor \<times> int) list" where
  "data4 = map (\<lambda>v. (\<lparr>t_dtype = DT_UINT8, t_shape = [2], t_data = [v, v + 10]\<rparr>, v)) [0, 1, 2, 3]"

section \<open>Vocabulary of the properties\<close>

text \<open>The words of one review, before the row is cut or filled to 50 columns.\<close>

definition tokens :: "tf_lib \<Rightarrow> bytes \<Rightarrow> bytes list" where
  "tokens L s =
     split_ws [] (regex_replace_not_az (utf8_len L) 0 (regex_replace_br (lower (substr s 0 300))))"

text \<open>The number of occurrences of a word in the preprocessed sample.\<close>

definition frequency :: "tf_lib \<Rightarrow> bytes list \<Rightarrow> bytes \<Rightarrow> nat" where
  "frequency L data_sample w = count_list (concat (preprocess_text L data_sample 50)) w"

text \<open>A counter that holds exactly the occurrence counts of the words of a list.\<close>

definition counts :: "counter \<Rightarrow> bytes list \<Rightarrow> bool" where
  "counts c ws \<longleftrightarrow>
     distinct (map fst c)
     \<and> (\<forall>w. map_of c w = (if w \<in> set ws then Some (count_list ws w) else None))"

text \<open>The number a string of decimal digits denotes.\<close>

definition digits_value :: "string \<Rightarrow> nat" where
  "digits_value s = foldl (\<lambda>a c. 10 * a + (of_char c - 48)) 0 s"

text \<open>The example of an image and a label: what \<open>create_example\<close> returns when it returns.\<close>

definition labelled_example :: "tf_lib \<Rightarrow> tensor \<Rightarrow> int \<Rightarrow> example" where
  "labelled_example L img label =
     [(''image'', BytesList [serialize_tensor L img]), (''label'', Int64List [label])]"

text \<open>
  The serialized examples of the positions of a dataset that are congruent to \<open>k\<close>
  modulo \<open>n\<close>, in the order of the dataset.
\<close>

definition records_of ::
  "tf_lib \<Rightarrow> (tensor \<times> int) list \<Rightarrow> nat \<Rightarrow> nat \<Rightarrow> bytes list" where
  "records_of L data n k =
     map (\<lambda>i. SerializeToString L (labelled_example L (fst (data ! i)) (snd (data ! i))))
       (filter (\<lambda>i. i mod n = k) [0..<length data])"

text \<open>What \<open>preprocess\<close> does with the bytes of the image feature and the label.\<close>

definition image_and_label :: "tf_lib \<Rightarrow> bytes \<Rightarrow> int \<Rightarrow> error + tensor \<times> int" where
  "image_and_label L image_bytes label =
     (case parse_tensor L image_bytes DT_UINT8 of
        Inl e \<Rightarrow> Inl e
      | Inr img \<Rightarrow>
          (case reshape img [28, 28] of
             Inl e \<Rightarrow> Inl e
           | Inr reshaped \<Rightarrow> Inr (reshaped, label)))"



text \<open>The records a run of the writing loop appends to the file of index \<open>k\<close>.\<close>

definition written :: "tf_lib \<Rightarrow> nat \<Rightarrow> nat \<Rightarrow> (nat \<times> tensor \<times> int) list \<Rightarrow> bytes list" where
  "written L n k items =
     map (\<lambda>(idx, img, label). SerializeToString L (labelled_example L img label))
       (filter (\<lambda>(idx, img, label). idx mod n = k) items)"

text \<open>The records of a file, none when there is no such file.\<close>

definition contents :: "filesystem \<Rightarrow> string \<Rightarrow> bytes list" where
  "contents fs p = (case fs p of None \<Rightarrow> [] | Some records \<Rightarrow> records)"

section \<open>Properties of the bag-of-words layer\<close>

lemma f32_ulp_small: "v < 16777216 \<Longrightarrow> f32_ulp v = 1"
  by (simp add: f32_ulp.simps [of v])

lemma f32_ulp_16777216: "f32_ulp 16777216 = 2"
  by (simp add: f32_ulp.simps [of 16777216] f32_ulp_small)

lemma f32_ulp_16777217: "f32_ulp 16777217 = 2"
  by (simp add: f32_ulp.simps [of 16777217] f32_ulp_small)

text \<open>Every integer from 0 to \<open>2 ^ 24\<close> is a \<open>float32\<close>; \<open>2 ^ 24 + 1\<close> is not.\<close>

lemma f32_round_exact:
  assumes "0 \<le> v" and "v \<le> 16777216"
  shows "f32_round v = v"
proof (cases "v = 16777216")
  case True
  then show ?thesis by (simp add: f32_round_def f32_ulp_16777216)
next
  case False
  with assms have "v < 16777216" by simp
  then show ?thesis by (simp add: f32_round_def f32_ulp_small)
qed

lemma f32_round_16777217: "f32_round 16777217 = 16777216"
  by (simp add: f32_round_def f32_ulp_16777217)

lemma f32_sum_indicator:
  "0 \<le> a \<Longrightarrow> a + int (count_list xs t) \<le> 16777216 \<Longrightarrow>
   foldl f32_add (F32 a) (map (\<lambda>x. if x = t then F32 1 else F32 0) xs)
   = F32 (a + int (count_list xs t))"
proof (induction xs arbitrary: a)
  case Nil
  then show ?case by simp
next
  case (Cons x xs)
  show ?case
  proof (cases "x = t")
    case True
    have "f32_round (a + 1) = a + 1"
      using Cons.prems True by (intro f32_round_exact) simp_all
    moreover have "foldl f32_add (F32 (a + 1)) (map (\<lambda>x. if x = t then F32 1 else F32 0) xs)
                   = F32 (a + 1 + int (count_list xs t))"
      using Cons.prems True by (intro Cons.IH) simp_all
    ultimately show ?thesis using True by simp
  next
    case False
    have "f32_round a = a"
      using Cons.prems by (intro f32_round_exact) simp_all
    moreover have "foldl f32_add (F32 a) (map (\<lambda>x. if x = t then F32 1 else F32 0) xs)
                   = F32 (a + int (count_list xs t))"
      using Cons.prems False by (intro Cons.IH) simp_all
    ultimately show ?thesis using False by simp
  qed
qed

lemma one_hot_column:
  assumes "j < depth"
  shows "map (\<lambda>v. v ! j) (map (\<lambda>idx. map (\<lambda>k. if idx = int k then F32 1 else F32 0) [0..<depth]) row)
         = map (\<lambda>idx. if idx = int j then F32 1 else F32 0) row"
  using assms by simp

lemma call_entry:
  assumes "i < length inputs" and "1 \<le> t" and "t < n_tokens self"
  shows "call self inputs ! i ! (t - 1)
         = foldl f32_add (F32 0) (map (\<lambda>idx. if idx = int t then F32 1 else F32 0) (inputs ! i))"
proof -
  have "call self inputs ! i
        = drop 1 (map (\<lambda>j. foldl f32_add (F32 0) (map (\<lambda>v. v ! j)
            (map (\<lambda>idx. map (\<lambda>k. if idx = int k then F32 1 else F32 0) [0..<n_tokens self]) (inputs ! i))))
            [0..<n_tokens self])"
    using assms(1) by (simp add: call_def reduce_sum_axis1_def one_hot_def)
  then have "call self inputs ! i ! (t - 1)
        = foldl f32_add (F32 0) (map (\<lambda>v. v ! t)
            (map (\<lambda>idx. map (\<lambda>k. if idx = int k then F32 1 else F32 0) [0..<n_tokens self]) (inputs ! i)))"
    using assms(2,3) by simp
  then show ?thesis
    by (simp only: one_hot_column [OF assms(3)])
qed

lemma call_lengths:
  "length (call self inputs) = length inputs"
  "i < length inputs \<Longrightarrow> length (call self inputs ! i) = n_tokens self - 1"
  by (simp_all add: call_def reduce_sum_axis1_def one_hot_def)

text \<open>
  Claim C5, as amended. For a batch of token-id sequences and a token id \<open>t\<close> with
  \<open>1 \<le> t < n_tokens\<close> that occurs at most \<open>2 ^ 24\<close> times in row \<open>i\<close> of the input, the
  layer returns at row \<open>i\<close>, column \<open>t - 1\<close> the number of occurrences of \<open>t\<close> in that
  row, as a \<open>float32\<close>; the row has \<open>n_tokens - 1\<close> columns, so the column of the pad
  token 0 is dropped.
\<close>

theorem BagOfWords_call_counts:
  assumes "i < length inputs" and "1 \<le> t" and "t < n_tokens self"
    and "count_list (inputs ! i) (int t) \<le> 16777216"
  shows "call self inputs ! i ! (t - 1) = F32 (int (count_list (inputs ! i) (int t)))
         \<and> length (call self inputs ! i) = n_tokens self - 1
         \<and> length (call self inputs) = length inputs"
proof -
  have "foldl f32_add (F32 0) (map (\<lambda>idx. if idx = int t then F32 1 else F32 0) (inputs ! i))
        = F32 (0 + int (count_list (inputs ! i) (int t)))"
    using assms(4) by (intro f32_sum_indicator) simp_all
  then show ?thesis
    using call_entry [OF assms(1,2,3)] call_lengths(1) [of self inputs]
      call_lengths(2) [OF assms(1), of self] by simp
qed

theorem BagOfWords_call_counts_witness:
  "(0::nat) < length [[1, 3, 3, 0, 0], [2, 2, 2, 1, 0::int]] \<and> (1::nat) \<le> 3
   \<and> (3::nat) < n_tokens \<lparr>n_tokens = 4\<rparr>
   \<and> count_list ([[1, 3, 3, 0, 0], [2, 2, 2, 1, 0::int]] ! 0) (int 3) \<le> 16777216
   \<and> call \<lparr>n_tokens = 4\<rparr> [[1, 3, 3, 0, 0], [2, 2, 2, 1, 0]] ! 0 ! (3 - 1) = F32 2
   \<and> call \<lparr>n_tokens = 4\<rparr> [[1, 3, 3, 0, 0], [2, 2, 2, 1, 0]]
       = [[F32 1, F32 0, F32 2], [F32 1, F32 3, F32 0]]"
proof -
  have h1: "(0::nat) < length [[1, 3, 3, 0, 0], [2, 2, 2, 1, 0::int]]" by simp
  have h2: "(1::nat) \<le> 3" by simp
  have h3: "(3::nat) < n_tokens \<lparr>n_tokens = 4\<rparr>" by simp
  have h4: "count_list ([[1, 3, 3, 0, 0], [2, 2, 2, 1, 0::int]] ! 0) (int 3) \<le> 16777216" by simp
  have c: "call \<lparr>n_tokens = 4\<rparr> [[1, 3, 3, 0, 0], [2, 2, 2, 1, 0]]
           = [[F32 1, F32 0, F32 2], [F32 1, F32 3, F32 0]]"
    by code_simp
  show ?thesis
    using BagOfWords_call_counts [OF h1 h2 h3 h4] h1 h2 h3 h4 c by simp
qed

text \<open>
  Claim C5 as stated fails: in a row that holds the token 1 exactly \<open>2 ^ 24 + 1\<close>
  times, the layer counts \<open>2 ^ 24\<close> occurrences, because the sum is a \<open>float32\<close>.
\<close>

lemma f32_sum_ones:
  "0 \<le> a \<Longrightarrow> a \<le> 16777216 \<Longrightarrow>
   foldl f32_add (F32 a) (replicate n (F32 1)) = F32 (min (a + int n) 16777216)"
proof (induction n arbitrary: a)
  case 0
  then show ?case by simp
next
  case (Suc n)
  show ?case
  proof (cases "a = 16777216")
    case True
    with Suc.IH [of a] show ?thesis by (simp add: f32_round_16777217)
  next
    case False
    with Suc.prems have "f32_round (a + 1) = a + 1"
      by (intro f32_round_exact) simp_all
    moreover have "foldl f32_add (F32 (a + 1)) (replicate n (F32 1))
                   = F32 (min (a + 1 + int n) 16777216)"
      using Suc.prems False by (intro Suc.IH) simp_all
    ultimately show ?thesis by (simp add: add.assoc)
  qed
qed

lemma count_list_replicate: "count_list (replicate n x) x = n"
  by (induction n) simp_all

lemma call_all_ones:
  assumes "0 < n"
  shows "call \<lparr>n_tokens = 2\<rparr> [replicate n 1] ! 0 ! (1 - 1) = F32 (min (int n) 16777216)"
proof -
  have "call \<lparr>n_tokens = 2\<rparr> [replicate n 1] ! 0 ! (1 - 1)
        = foldl f32_add (F32 0) (map (\<lambda>idx. if idx = int 1 then F32 1 else F32 0) ([replicate n 1] ! 0))"
    by (rule call_entry) simp_all
  also have "\<dots> = foldl f32_add (F32 0) (replicate n (F32 1))"
    by (simp add: map_replicate)
  also have "\<dots> = F32 (min (0 + int n) 16777216)"
    by (rule f32_sum_ones) simp_all
  finally show ?thesis by simp
qed

theorem BagOfWords_call_counts_counterexample:
  "call \<lparr>n_tokens = 2\<rparr> [replicate 16777217 1] ! 0 ! (1 - 1) = F32 16777216
   \<and> count_list (replicate 16777217 (1::int)) 1 = 16777217"
proof -
  have "call \<lparr>n_tokens = 2\<rparr> [replicate 16777217 1] ! 0 ! (1 - 1)
        = F32 (min (int 16777217) 16777216)"
    by (rule call_all_ones) simp
  moreover have "count_list (replicate 16777217 (1::int)) 1 = 16777217"
    by (rule count_list_replicate)
  ultimately show ?thesis by simp
qed

section \<open>Properties of the text preprocessing\<close>

lemma preprocess_text_rows:
  "preprocess_text L X n
   = map (\<lambda>s. take 50 (tokens L s) @ replicate (50 - length (tokens L s)) pad) X"
  by (simp add: preprocess_text_def to_tensor_def tokens_def Let_def comp_def)

text \<open>
  Claim C4. The parameter \<open>n_words\<close> of \<open>preprocess_text\<close> has no effect: the result
  for any \<open>n\<close> is the result for 50. It has one row per input string, and each row has
  exactly 50 columns: the first 50 words of the string, filled with \<open><pad>\<close>.
\<close>

theorem preprocess_text_n_words_unused:
  "preprocess_text L X n = preprocess_text L X 50
   \<and> length (preprocess_text L X n) = length X
   \<and> (\<forall>i < length X.
         length (preprocess_text L X n ! i) = 50
         \<and> preprocess_text L X n ! i
            = take 50 (tokens L (X ! i)) @ replicate (50 - length (tokens L (X ! i))) pad)"
  by (auto simp: preprocess_text_rows)

theorem preprocess_text_n_words_unused_witness:
  "preprocess_text ref_lib X_example 7 = preprocess_text ref_lib X_example 50
   \<and> length (preprocess_text ref_lib X_example 7) = length X_example
   \<and> (0::nat) < length X_example
   \<and> length (preprocess_text ref_lib X_example 7 ! 0) = 50
   \<and> preprocess_text ref_lib X_example 7 ! 0
      = [''it'', ''s'', ''a'', ''great'', ''great'', ''movie'', ''i'', ''loved'', ''it'']
        @ replicate 41 pad"
proof -
  have h: "(0::nat) < length X_example" by (simp add: X_example_def)
  have t: "tokens ref_lib (X_example ! 0)
           = [''it'', ''s'', ''a'', ''great'', ''great'', ''movie'', ''i'', ''loved'', ''it'']"
    by code_simp
  note c = preprocess_text_n_words_unused [of ref_lib X_example 7]
  from c have c1: "preprocess_text ref_lib X_example 7 = preprocess_text ref_lib X_example 50"
    and c2: "length (preprocess_text ref_lib X_example 7) = length X_example"
    by blast+
  from c h have c3: "length (preprocess_text ref_lib X_example 7 ! 0) = 50"
    and "preprocess_text ref_lib X_example 7 ! 0
       = take 50 (tokens ref_lib (X_example ! 0))
         @ replicate (50 - length (tokens ref_lib (X_example ! 0))) pad"
    by blast+
  then have c4: "preprocess_text ref_lib X_example 7 ! 0
      = [''it'', ''s'', ''a'', ''great'', ''great'', ''movie'', ''i'', ''loved'', ''it'']
        @ replicate 41 pad"
    by (simp add: t)
  from c1 c2 h c3 c4 show ?thesis by blast
qed

section \<open>Properties of the vocabulary\<close>

lemma counter_incr_keys:
  "map fst (counter_incr w c) = (if w \<in> set (map fst c) then map fst c else map fst c @ [w])"
  by (induction w c rule: counter_incr.induct) auto

lemma counter_incr_map_of:
  "map_of (counter_incr w c) = (map_of c)(w \<mapsto> (case map_of c w of None \<Rightarrow> 1 | Some n \<Rightarrow> n + 1))"
  by (induction w c rule: counter_incr.induct) (auto simp: fun_upd_twist)

lemma counts_incr:
  assumes "counts c ws"
  shows "counts (counter_incr w c) (ws @ [w])"
proof -
  have d: "distinct (map fst (counter_incr w c))"
    using assms by (simp add: counter_incr_keys counts_def)
  have "map_of (counter_incr w c) x
        = (if x \<in> set (ws @ [w]) then Some (count_list (ws @ [w]) x) else None)" for x
    using assms by (simp add: counter_incr_map_of counts_def)
  with d show ?thesis by (simp add: counts_def)
qed

lemma counts_words:
  "counts c ws \<Longrightarrow>
   counts (fold (\<lambda>word counter. if word \<noteq> pad then counter_incr word counter else counter) words c)
     (ws @ filter (\<lambda>w. w \<noteq> pad) words)"
proof (induction words arbitrary: c ws)
  case Nil
  then show ?case by simp
next
  case (Cons w words)
  show ?case
  proof (cases "w = pad")
    case True
    with Cons show ?thesis by simp
  next
    case False
    from Cons.IH [OF counts_incr [OF Cons.prems, of w]] False show ?thesis by simp
  qed
qed

lemma counts_rows:
  "counts c ws \<Longrightarrow>
   counts (fold (\<lambda>words counter.
             fold (\<lambda>word counter. if word \<noteq> pad then counter_incr word counter else counter)
               words counter) rows c)
     (ws @ filter (\<lambda>w. w \<noteq> pad) (concat rows))"
proof (induction rows arbitrary: c ws)
  case Nil
  then show ?case by simp
next
  case (Cons r rows)
  from Cons.IH [OF counts_words [OF Cons.prems, of r]] show ?case by simp
qed

lemma counts_count_words:
  "counts (count_words rows) (filter (\<lambda>w. w \<noteq> pad) (concat rows))"
proof -
  have "counts [] []" by (simp add: counts_def)
  from counts_rows [OF this, of rows] show ?thesis by (simp add: count_words_def)
qed

lemma counts_entry:
  assumes "counts c ws" and "(w, n) \<in> set c"
  shows "w \<in> set ws \<and> n = count_list ws w"
proof -
  from assms have "distinct (map fst c)" by (simp add: counts_def)
  then have "map_of c w = Some n" using assms(2) by (rule map_of_is_SomeI)
  moreover from assms(1)
  have "map_of c w = (if w \<in> set ws then Some (count_list ws w) else None)"
    by (simp add: counts_def)
  ultimately show ?thesis by (simp split: if_splits)
qed

lemma count_list_filter_other:
  "w \<noteq> p \<Longrightarrow> count_list (filter (\<lambda>x. x \<noteq> p) xs) w = count_list xs w"
  by (induction xs) auto

lemma most_common_subset: "set (most_common n c) \<subseteq> set c"
  by (auto simp: most_common_def dest: in_set_takeD)

lemma most_common_distinct:
  assumes "distinct (map fst c)"
  shows "distinct (map fst (most_common n c))"
proof -
  have "distinct (map fst (sort_key (\<lambda>(w, c). - int c) c))"
    using assms by (simp add: distinct_map)
  then show ?thesis
    by (simp add: most_common_def take_map [symmetric] distinct_take)
qed

lemma most_common_sorted:
  "sorted_wrt (\<lambda>a b. snd b \<le> snd a) (most_common n c)"
proof -
  have "sorted (map (\<lambda>(w, c). - int c) (sort_key (\<lambda>(w, c). - int c) c))"
    by (rule sorted_sort_key)
  then have "sorted (take (nat n) (map (\<lambda>(w, c). - int c) (sort_key (\<lambda>(w, c). - int c) c)))"
    by (rule sorted_wrt_take)
  then have "sorted (map (\<lambda>(w, c). - int c) (most_common n c))"
    by (simp add: most_common_def take_map)
  then show ?thesis
    by (simp add: sorted_wrt_map case_prod_beta)
qed

lemma most_common_length: "0 \<le> n \<Longrightarrow> int (length (most_common n c)) \<le> n"
  by (simp add: most_common_def)

text \<open>
  Claim C8. For every data sample and every \<open>max_size \<ge> 0\<close>, the vocabulary starts
  with \<open><pad>\<close>, has at most \<open>max_size + 1\<close> entries, has no duplicates, does not list
  \<open><pad>\<close> among the frequent words, and lists the words after \<open><pad>\<close> in
  non-increasing order of their frequency in the preprocessed sample.
\<close>

theorem get_vocabulary_well_formed:
  assumes "0 \<le> max_size"
  shows "hd (get_vocabulary L data_sample max_size) = pad
         \<and> int (length (get_vocabulary L data_sample max_size)) \<le> max_size + 1
         \<and> distinct (get_vocabulary L data_sample max_size)
         \<and> pad \<notin> set (tl (get_vocabulary L data_sample max_size))
         \<and> sorted_wrt (\<lambda>a b. frequency L data_sample b \<le> frequency L data_sample a)
             (tl (get_vocabulary L data_sample max_size))"
proof -
  define rows where "rows = preprocess_text L data_sample 50"
  define ws where "ws = filter (\<lambda>w. w \<noteq> pad) (concat rows)"
  define mc where "mc = most_common max_size (count_words rows)"
  have v: "get_vocabulary L data_sample max_size = pad # map fst mc"
    by (simp add: get_vocabulary_def Let_def mc_def rows_def)
  have cnt: "counts (count_words rows) ws"
    unfolding ws_def by (rule counts_count_words)
  have entry: "w \<in> set ws \<and> n = count_list ws w" if "(w, n) \<in> set mc" for w n
    using counts_entry [OF cnt] most_common_subset [of max_size "count_words rows"] that
    unfolding mc_def by blast
  have freq: "snd e = frequency L data_sample (fst e)" if "e \<in> set mc" for e
  proof -
    from entry [of "fst e" "snd e"] that
    have "fst e \<noteq> pad" and "snd e = count_list ws (fst e)" by (auto simp: ws_def)
    moreover have "count_list ws w = count_list (concat rows) w" if "w \<noteq> pad" for w
      using that unfolding ws_def by (rule count_list_filter_other)
    ultimately show ?thesis by (simp add: frequency_def rows_def)
  qed
  have nopad: "pad \<notin> set (map fst mc)"
  proof
    assume "pad \<in> set (map fst mc)"
    then obtain n where "(pad, n) \<in> set mc" by auto
    from entry [OF this] show False by (simp add: ws_def)
  qed
  have dist: "distinct (map fst mc)"
    unfolding mc_def using cnt by (intro most_common_distinct) (simp add: counts_def)
  have len: "int (length mc) \<le> max_size"
    unfolding mc_def by (rule most_common_length [OF assms])
  have "sorted_wrt (\<lambda>a b. snd b \<le> snd a) mc"
    unfolding mc_def by (rule most_common_sorted)
  then have "sorted_wrt (\<lambda>a b. frequency L data_sample (fst b) \<le> frequency L data_sample (fst a)) mc"
    by (rule sorted_wrt_mono_rel [rotated]) (simp add: freq)
  then have srt: "sorted_wrt (\<lambda>a b. frequency L data_sample b \<le> frequency L data_sample a) (map fst mc)"
    by (simp add: sorted_wrt_map)
  show ?thesis
    using nopad dist len srt by (simp add: v)
qed

theorem get_vocabulary_well_formed_witness:
  "(0::int) \<le> 3
   \<and> get_vocabulary ref_lib X_example 3 = [''<pad>'', ''it'', ''great'', ''s'']
   \<and> hd (get_vocabulary ref_lib X_example 3) = pad
   \<and> int (length (get_vocabulary ref_lib X_example 3)) \<le> 3 + 1
   \<and> distinct (get_vocabulary ref_lib X_example 3)
   \<and> pad \<notin> set (tl (get_vocabulary ref_lib X_example 3))
   \<and> sorted_wrt (\<lambda>a b. frequency ref_lib X_example b \<le> frequency ref_lib X_example a)
       (tl (get_vocabulary ref_lib X_example 3))"
proof -
  have h: "(0::int) \<le> 3" by simp
  have v: "get_vocabulary ref_lib X_example 3 = [''<pad>'', ''it'', ''great'', ''s'']"
    by code_simp
  from get_vocabulary_well_formed [OF h, of ref_lib X_example] h v show ?thesis
    by blast
qed

text \<open>
  The vocabulary of the notebook's own example, whose word ids the notebook prints as
  \<open>1 3 4 2 2 5 6 7 1\<close> and \<open>1 8 9 10 11\<close>.
\<close>

lemma get_vocabulary_X_example:
  "get_vocabulary ref_lib X_example 1000
   = [''<pad>'', ''it'', ''great'', ''s'', ''a'', ''movie'', ''i'', ''loved'',
      ''was'', ''terrible'', ''run'', ''away'']"
  by code_simp

section \<open>Properties of the TFRecord writer\<close>

lemma digits_value_snoc: "digits_value (xs @ [c]) = 10 * digits_value xs + (of_char c - 48)"
  by (simp add: digits_value_def)

lemma digits_value_digit: "d < 10 \<Longrightarrow> digits_value [digit_char d] = d"
  by (simp add: digits_value_def digit_char_def)

lemma digits_value_digits: "digits_value (digits n) = n"
proof (induction n rule: digits.induct)
  case (1 n)
  show ?case
  proof (cases "n < 10")
    case True
    then show ?thesis by (simp add: digits.simps [of n] digits_value_digit)
  next
    case False
    have "of_char (digit_char (n mod 10)) - 48 = n mod 10"
      by (simp add: digit_char_def)
    with False "1.IH" show ?thesis
      by (simp add: digits.simps [of n] digits_value_snoc)
  qed
qed

lemma digits_value_zeros: "digits_value (replicate k CHR ''0'' @ s) = digits_value s"
proof -
  have "foldl (\<lambda>a c. 10 * a + (of_char c - 48)) (0::nat) (replicate k CHR ''0'') = 0"
    by (induction k) simp_all
  then show ?thesis by (simp add: digits_value_def)
qed

lemma digits_value_format_02d: "digits_value (format_02d idx) = idx"
  by (simp add: format_02d_def Let_def digits_value_zeros digits_value_digits)

text \<open>Two indices never give the same file name.\<close>

lemma filepath_inj: "filepath name a = filepath name b \<Longrightarrow> a = b"
proof -
  assume "filepath name a = filepath name b"
  then have "format_02d a = format_02d b" by (simp add: filepath_def)
  then have "digits_value (format_02d a) = digits_value (format_02d b)" by simp
  then show ?thesis by (simp only: digits_value_format_02d)
qed

lemma distinct_filepaths: "distinct (map (filepath name) [0..<n])"
  by (simp add: distinct_map inj_on_def) (blast dest: filepath_inj)

lemma fold_TFRecordWriter:
  "fold TFRecordWriter ps fs = (\<lambda>p. if p \<in> set ps then Some [] else fs p)"
proof (induction ps arbitrary: fs)
  case Nil
  show ?case by simp
next
  case (Cons q ps)
  have "fold TFRecordWriter (q # ps) fs = (\<lambda>p. if p \<in> set ps then Some [] else TFRecordWriter q fs p)"
    by (simp add: Cons.IH)
  also have "\<dots> = (\<lambda>p. if p \<in> set (q # ps) then Some [] else fs p)"
    by (auto simp: TFRecordWriter_def)
  finally show ?case .
qed

lemma create_example_int64:
  "int64 label \<Longrightarrow> create_example L img label = Inr (labelled_example L img label)"
  by (simp add: create_example_def new_Int64List_def labelled_example_def)

lemma create_example_not_int64:
  "\<not> int64 label \<Longrightarrow> create_example L img label = Inl ValueError"
  by (simp add: create_example_def new_Int64List_def)

text \<open>
  One turn of the writing loop either raises and leaves the file system as it is, or
  appends the serialized example to the file of one of the writers and goes on.
\<close>

lemma write_examples_step:
  "(\<exists>e. write_examples L ws n ((idx, img, label) # items) fs = (Some e, fs))
   \<or> (\<exists>j < length ws.
         write_examples L ws n ((idx, img, label) # items) fs
         = write_examples L ws n items
             (writer_write (ws ! j) (SerializeToString L (labelled_example L img label)) fs))"
proof (cases "int64 label")
  case False
  then show ?thesis
    by (simp add: create_example_not_int64 Let_def)
next
  case True
  define file_idx where "file_idx = int idx mod n"
  define j where "j = (if file_idx < 0 then int (length ws) + file_idx else file_idx)"
  show ?thesis
  proof (cases "n \<noteq> 0 \<and> 0 \<le> j \<and> j < int (length ws)")
    case False
    then show ?thesis
      by (auto simp: Let_def j_def file_idx_def)
  next
    case inside: True
    then have "nat j < length ws" by (simp add: nat_less_iff)
    moreover have "write_examples L ws n ((idx, img, label) # items) fs
         = write_examples L ws n items
             (writer_write (ws ! nat j) (SerializeToString L (labelled_example L img label)) fs)"
      using inside True
      by (simp add: Let_def j_def [symmetric] file_idx_def [symmetric] create_example_int64)
    ultimately show ?thesis by blast
  qed
qed

lemma writer_write_other: "p \<noteq> q \<Longrightarrow> writer_write q r fs p = fs p"
  by (simp add: writer_write_def)

lemma writer_write_dom: "q \<in> dom fs \<Longrightarrow> dom (writer_write q r fs) = dom fs"
  by (auto simp: writer_write_def)

lemma writer_write_contents:
  "set (contents (writer_write q r fs) p) \<subseteq> insert r (set (contents fs p))"
  by (auto simp: writer_write_def contents_def split: option.splits if_splits)

text \<open>
  Whatever the dataset and the number of files, the writing loop touches only the
  files of its writers, creates no file, and appends only serialized examples of
  elements of the dataset.
\<close>

lemma write_examples_other:
  "p \<notin> set ws \<Longrightarrow> snd (write_examples L ws n items fs) p = fs p"
proof (induction items arbitrary: fs)
  case Nil
  show ?case by simp
next
  case (Cons item items)
  obtain idx img label where item: "item = (idx, img, label)" by (cases item) auto
  from write_examples_step [of L ws n idx img label items fs] show ?case
  proof (elim disjE exE conjE)
    fix e assume "write_examples L ws n ((idx, img, label) # items) fs = (Some e, fs)"
    then show ?thesis by (simp add: item)
  next
    fix j assume j: "j < length ws"
      and w: "write_examples L ws n ((idx, img, label) # items) fs
         = write_examples L ws n items
             (writer_write (ws ! j) (SerializeToString L (labelled_example L img label)) fs)"
    from j Cons.prems have "p \<noteq> ws ! j" by auto
    then show ?thesis
      unfolding item w by (simp add: Cons.IH [OF Cons.prems] writer_write_other)
  qed
qed

lemma write_examples_dom:
  "set ws \<subseteq> dom fs \<Longrightarrow> dom (snd (write_examples L ws n items fs)) = dom fs"
proof (induction items arbitrary: fs)
  case Nil
  show ?case by simp
next
  case (Cons item items)
  obtain idx img label where item: "item = (idx, img, label)" by (cases item) auto
  from write_examples_step [of L ws n idx img label items fs] show ?case
  proof (elim disjE exE conjE)
    fix e assume "write_examples L ws n ((idx, img, label) # items) fs = (Some e, fs)"
    then show ?thesis by (simp add: item)
  next
    fix j assume j: "j < length ws"
      and w: "write_examples L ws n ((idx, img, label) # items) fs
         = write_examples L ws n items
             (writer_write (ws ! j) (SerializeToString L (labelled_example L img label)) fs)"
    let ?fs = "writer_write (ws ! j) (SerializeToString L (labelled_example L img label)) fs"
    from j have "ws ! j \<in> set ws" by simp
    with Cons.prems have "ws ! j \<in> dom fs" by blast
    then have d: "dom ?fs = dom fs" by (rule writer_write_dom)
    with Cons.prems have "set ws \<subseteq> dom ?fs" by simp
    from Cons.IH [OF this] d show ?thesis
      unfolding item w by simp
  qed
qed

lemma write_examples_records:
  "r \<in> set (contents (snd (write_examples L ws n items fs)) p) \<Longrightarrow>
   r \<in> set (contents fs p)
   \<or> (\<exists>idx img label. (idx, img, label) \<in> set items
         \<and> r = SerializeToString L (labelled_example L img label))"
proof (induction items arbitrary: fs)
  case Nil
  then show ?case by simp
next
  case (Cons item items)
  obtain idx img label where item: "item = (idx, img, label)" by (cases item) auto
  from write_examples_step [of L ws n idx img label items fs] show ?case
  proof (elim disjE exE conjE)
    fix e assume "write_examples L ws n ((idx, img, label) # items) fs = (Some e, fs)"
    with Cons.prems show ?thesis by (simp add: item)
  next
    fix j assume j: "j < length ws"
      and w: "write_examples L ws n ((idx, img, label) # items) fs
         = write_examples L ws n items
             (writer_write (ws ! j) (SerializeToString L (labelled_example L img label)) fs)"
    let ?r = "SerializeToString L (labelled_example L img label)"
    let ?fs = "writer_write (ws ! j) ?r fs"
    from Cons.prems have "r \<in> set (contents (snd (write_examples L ws n items ?fs)) p)"
      unfolding item w .
    from Cons.IH [OF this]
    have "r \<in> set (contents ?fs p)
          \<or> (\<exists>idx img label. (idx, img, label) \<in> set items
                \<and> r = SerializeToString L (labelled_example L img label))" .
    moreover have "set (contents ?fs p) \<subseteq> insert ?r (set (contents fs p))"
      by (rule writer_write_contents)
    ultimately show ?thesis
      unfolding item by auto
  qed
qed

text \<open>
  The writing loop, started on open files with distinct paths, a positive number of
  files and labels that are 64-bit integers: it does not raise, and the file of index
  \<open>k\<close> receives the examples whose position is \<open>k\<close> modulo \<open>n\<close>.
\<close>

lemma write_examples_ok:
  assumes "0 < n" and "length ws = nat n" and "distinct ws"
  shows "set ws \<subseteq> dom fs \<Longrightarrow> list_all (\<lambda>(idx, img, label). int64 label) items \<Longrightarrow>
         fst (write_examples L ws n items fs) = None
         \<and> (\<forall>k < nat n. snd (write_examples L ws n items fs) (ws ! k)
                = Some (contents fs (ws ! k) @ written L (nat n) k items))"
proof (induction items arbitrary: fs)
  case Nil
  have "fs (ws ! k) = Some (contents fs (ws ! k))" if "k < nat n" for k
  proof -
    have "ws ! k \<in> dom fs" using Nil that assms(2) by (auto simp: subset_iff)
    then show ?thesis by (auto simp: contents_def)
  qed
  then show ?case by (simp add: written_def)
next
  case (Cons item items)
  obtain idx img label where item: "item = (idx, img, label)" by (cases item) auto
  from Cons.prems(2) have lab: "int64 label" and rest: "list_all (\<lambda>(idx, img, label). int64 label) items"
    by (simp_all add: item)
  define j where "j = idx mod nat n"
  define r where "r = SerializeToString L (labelled_example L img label)"
  define fs' where "fs' = writer_write (ws ! j) r fs"
  have jn: "j < nat n" using assms(1) by (simp add: j_def)
  have jint: "int idx mod n = int j"
    using assms(1) by (simp add: j_def zmod_int)
  have jlt: "int j < n" using jn by simp
  have step: "write_examples L ws n (item # items) fs = write_examples L ws n items fs'"
    using assms(1,2) jlt
    by (simp add: item jint fs'_def r_def Let_def create_example_int64 [OF lab])
  have same: "ws ! k = ws ! j \<longleftrightarrow> k = j" if "k < nat n" for k
    using that jn assms(2,3) by (simp add: nth_eq_iff_index_eq)
  have c1: "contents fs' (ws ! j) = contents fs (ws ! j) @ [r]"
    by (simp add: fs'_def writer_write_def contents_def split: option.splits)
  have c2: "contents fs' (ws ! k) = contents fs (ws ! k)" if "k < nat n" "k \<noteq> j" for k
    using same [OF that(1)] that(2) by (simp add: fs'_def writer_write_def contents_def)
  have w1: "written L (nat n) j (item # items) = r # written L (nat n) j items"
    by (simp add: written_def item j_def r_def)
  have w2: "written L (nat n) k (item # items) = written L (nat n) k items" if "k \<noteq> j" for k
    using that by (auto simp: written_def item j_def)
  have "set ws \<subseteq> dom fs'"
    using Cons.prems(1) by (auto simp: fs'_def writer_write_def)
  from Cons.IH [OF this rest] show ?case
    unfolding step
    apply (intro conjI allI impI)
    subgoal by simp
    subgoal for k by (cases "k = j") (simp_all add: c1 c2 w1 w2)
    done
qed

lemma enumerate_positions: "enumerate 0 xs = map (\<lambda>i. (i, xs ! i)) [0..<length xs]"
  by (rule nth_equalityI) (simp_all add: nth_enumerate_eq)

lemma written_enumerate: "written L n k (enumerate 0 data) = records_of L data n k"
  by (simp add: written_def records_of_def enumerate_positions filter_map comp_def case_prod_beta)

lemma enumerate_int64:
  "list_all (\<lambda>x. int64 (snd x)) data \<Longrightarrow>
   list_all (\<lambda>(idx, img, label). int64 label) (enumerate 0 data)"
proof -
  assume a: "list_all (\<lambda>x. int64 (snd x)) data"
  have "int64 label" if "(idx, img, label) \<in> set (enumerate 0 data)" for idx img label
  proof -
    from that have "idx < length data" and "data ! idx = (img, label)"
      by (simp_all add: in_set_enumerate_eq)
    with a show ?thesis by (auto simp: list_all_length)
  qed
  then show ?thesis by (auto simp: list_all_iff)
qed

lemma save_tfrecords_unfold:
  "save_tfrecords L name data n_records fs
   = (case fst (write_examples L (map (filepath name) [0..<nat n_records]) n_records
                  (enumerate 0 data)
                  (fold TFRecordWriter (map (filepath name) [0..<nat n_records]) fs)) of
        None \<Rightarrow> Inr (map (filepath name) [0..<nat n_records])
      | Some e \<Rightarrow> Inl e,
      snd (write_examples L (map (filepath name) [0..<nat n_records]) n_records
             (enumerate 0 data)
             (fold TFRecordWriter (map (filepath name) [0..<nat n_records]) fs)))"
  by (simp add: save_tfrecords_def Let_def case_prod_beta)

text \<open>
  What \<open>save_tfrecords\<close> does to the file system, whether it returns or raises: the
  files of its paths exist afterwards, no other path changes, and every record in its
  files is the serialized example of an element of the dataset.
\<close>

lemma save_tfrecords_frame:
  shows "p \<notin> set (map (filepath name) [0..<nat n_records]) \<Longrightarrow>
         snd (save_tfrecords L name data n_records fs) p = fs p"
    and "dom (snd (save_tfrecords L name data n_records fs))
         = dom fs \<union> set (map (filepath name) [0..<nat n_records])"
    and "k < nat n_records \<Longrightarrow>
         r \<in> set (contents (snd (save_tfrecords L name data n_records fs)) (filepath name k)) \<Longrightarrow>
         \<exists>img label. (img, label) \<in> set data
           \<and> r = SerializeToString L
                    [(''image'', BytesList [serialize_tensor L img]), (''label'', Int64List [label])]"
proof -
  define ws where "ws = map (filepath name) [0..<nat n_records]"
  define fs1 where "fs1 = fold TFRecordWriter ws fs"
  have fs1: "fs1 = (\<lambda>p. if p \<in> set ws then Some [] else fs p)"
    unfolding fs1_def by (rule fold_TFRecordWriter)
  have dom1: "set ws \<subseteq> dom fs1" by (auto simp: fs1)
  have s: "snd (save_tfrecords L name data n_records fs)
           = snd (write_examples L ws n_records (enumerate 0 data) fs1)"
    unfolding ws_def fs1_def by (simp add: save_tfrecords_unfold)
  show "snd (save_tfrecords L name data n_records fs) p = fs p"
    if "p \<notin> set (map (filepath name) [0..<nat n_records])"
  proof -
    from that have "p \<notin> set ws" by (simp add: ws_def)
    then show ?thesis by (simp add: s write_examples_other fs1)
  qed
  have "dom (snd (save_tfrecords L name data n_records fs)) = dom fs1"
    unfolding s using dom1 by (rule write_examples_dom)
  also have "\<dots> = dom fs \<union> set ws"
    by (auto simp: fs1 dom_def)
  finally show "dom (snd (save_tfrecords L name data n_records fs))
         = dom fs \<union> set (map (filepath name) [0..<nat n_records])"
    by (simp only: ws_def)
  show "\<exists>img label. (img, label) \<in> set data
           \<and> r = SerializeToString L
                    [(''image'', BytesList [serialize_tensor L img]), (''label'', Int64List [label])]"
    if "k < nat n_records"
      and "r \<in> set (contents (snd (save_tfrecords L name data n_records fs)) (filepath name k))"
  proof -
    from that(1) have "filepath name k \<in> set ws" by (simp add: ws_def)
    then have "contents fs1 (filepath name k) = []" by (simp add: fs1 contents_def)
    with write_examples_records [of r L ws n_records "enumerate 0 data" fs1 "filepath name k"] that(2)
    obtain idx img label where "(idx, img, label) \<in> set (enumerate 0 data)"
      and r: "r = SerializeToString L (labelled_example L img label)"
      unfolding s by auto
    then have "idx < length data" and "data ! idx = (img, label)"
      by (simp_all add: in_set_enumerate_eq)
    then have "(img, label) \<in> set data"
      by (metis nth_mem)
    with r show ?thesis
      unfolding labelled_example_def by blast
  qed
qed

lemma save_tfrecords_files:
  assumes "1 \<le> n_records" and "list_all (\<lambda>x. int64 (snd x)) data"
  shows "fst (save_tfrecords L name data n_records fs) = Inr (map (filepath name) [0..<nat n_records])"
    and "k < nat n_records \<Longrightarrow>
         snd (save_tfrecords L name data n_records fs) (filepath name k)
           = Some (records_of L data (nat n_records) k)"
proof -
  define ws where "ws = map (filepath name) [0..<nat n_records]"
  define fs1 where "fs1 = fold TFRecordWriter ws fs"
  have n: "0 < n_records" using assms(1) by simp
  have len: "length ws = nat n_records" by (simp add: ws_def)
  have dist: "distinct ws" unfolding ws_def by (rule distinct_filepaths)
  have fs1: "fs1 = (\<lambda>p. if p \<in> set ws then Some [] else fs p)"
    unfolding fs1_def by (rule fold_TFRecordWriter)
  have dom: "set ws \<subseteq> dom fs1" by (auto simp: fs1)
  note w = write_examples_ok [OF n len dist dom enumerate_int64 [OF assms(2)], of L]
  have s: "save_tfrecords L name data n_records fs
           = (case fst (write_examples L ws n_records (enumerate 0 data) fs1) of
                None \<Rightarrow> Inr ws | Some e \<Rightarrow> Inl e,
              snd (write_examples L ws n_records (enumerate 0 data) fs1))"
    unfolding ws_def fs1_def by (rule save_tfrecords_unfold)
  show "fst (save_tfrecords L name data n_records fs) = Inr (map (filepath name) [0..<nat n_records])"
    using w by (simp add: s ws_def)
  show "snd (save_tfrecords L name data n_records fs) (filepath name k)
           = Some (records_of L data (nat n_records) k)" if "k < nat n_records"
  proof -
    have "ws ! k = filepath name k" using that by (simp add: ws_def)
    moreover have "contents fs1 (ws ! k) = []"
      using that len by (simp add: fs1 contents_def)
    moreover from w that
    have "snd (write_examples L ws n_records (enumerate 0 data) fs1) (ws ! k)
          = Some (contents fs1 (ws ! k) @ written L (nat n_records) k (enumerate 0 data))"
      by blast
    ultimately show ?thesis
      by (simp add: s written_enumerate)
  qed
qed

lemma records_of_member:
  assumes "i < length data" and "0 < n"
  shows "SerializeToString L (labelled_example L (fst (data ! i)) (snd (data ! i)))
         \<in> set (records_of L data n (i mod n))"
  using assms by (auto simp: records_of_def)

text \<open>
  Claim C7, as amended. For \<open>n_records \<ge> 1\<close> and a dataset whose labels are signed
  64-bit integers, \<open>save_tfrecords\<close> returns the \<open>n_records\<close> paths
  \<open>{name}_{idx:02d}.tfrecord\<close> for \<open>idx = 0 .. n_records - 1\<close>, which are distinct; the
  file of index \<open>k\<close> holds, in the order of the dataset, the serialized examples of the
  positions \<open>i\<close> with \<open>i mod n_records = k\<close> and nothing else; so the example at
  position \<open>i\<close> is in the file of index \<open>i mod n_records\<close>.
\<close>

theorem save_tfrecords_round_robin:
  assumes "1 \<le> n_records" and "list_all (\<lambda>x. int64 (snd x)) data"
  shows "fst (save_tfrecords L name data n_records fs)
           = Inr (map (\<lambda>idx. name @ ''_'' @ format_02d idx @ ''.tfrecord'') [0..<nat n_records])
         \<and> length (map (filepath name) [0..<nat n_records]) = nat n_records
         \<and> distinct (map (filepath name) [0..<nat n_records])
         \<and> (\<forall>k < nat n_records.
               snd (save_tfrecords L name data n_records fs) (filepath name k)
                 = Some (records_of L data (nat n_records) k))
         \<and> (\<forall>i < length data.
               create_example L (fst (data ! i)) (snd (data ! i))
                 = Inr (labelled_example L (fst (data ! i)) (snd (data ! i)))
               \<and> SerializeToString L (labelled_example L (fst (data ! i)) (snd (data ! i)))
                   \<in> set (records_of L data (nat n_records) (i mod nat n_records)))"
proof -
  have "0 < nat n_records" using assms(1) by simp
  then have e: "\<forall>i < length data.
               create_example L (fst (data ! i)) (snd (data ! i))
                 = Inr (labelled_example L (fst (data ! i)) (snd (data ! i)))
               \<and> SerializeToString L (labelled_example L (fst (data ! i)) (snd (data ! i)))
                   \<in> set (records_of L data (nat n_records) (i mod nat n_records))"
    using assms(2) by (simp add: records_of_member create_example_int64 list_all_length)
  have "filepath name = (\<lambda>idx. name @ ''_'' @ format_02d idx @ ''.tfrecord'')"
    by (rule ext) (simp add: filepath_def)
  then have a: "fst (save_tfrecords L name data n_records fs)
           = Inr (map (\<lambda>idx. name @ ''_'' @ format_02d idx @ ''.tfrecord'') [0..<nat n_records])"
    using save_tfrecords_files(1) [OF assms, where L = L and name = name and fs = fs]
    by (simp only:)
  have b: "length (map (filepath name) [0..<nat n_records]) = nat n_records"
    by simp
  have c: "distinct (map (filepath name) [0..<nat n_records])"
    by (rule distinct_filepaths)
  have d: "\<forall>k < nat n_records.
               snd (save_tfrecords L name data n_records fs) (filepath name k)
                 = Some (records_of L data (nat n_records) k)"
    using save_tfrecords_files(2) [OF assms] by blast
  from a b c d e show ?thesis by (intro conjI)
qed

theorem save_tfrecords_round_robin_witness:
  "(1::int) \<le> 3
   \<and> list_all (\<lambda>x. int64 (snd x)) data4
   \<and> fst (save_tfrecords ref_lib ''x'' data4 3 Map.empty)
       = Inr [''x_00.tfrecord'', ''x_01.tfrecord'', ''x_02.tfrecord'']
   \<and> snd (save_tfrecords ref_lib ''x'' data4 3 Map.empty) ''x_00.tfrecord''
       = Some [SerializeToString ref_lib (labelled_example ref_lib (fst (data4 ! 0)) 0),
               SerializeToString ref_lib (labelled_example ref_lib (fst (data4 ! 3)) 3)]"
proof -
  have h: "(1::int) \<le> 3" by simp
  have l: "list_all (\<lambda>x. int64 (snd x)) data4"
    by (simp add: data4_def int64_def)
  note t = save_tfrecords_round_robin [OF h l, of ref_lib "''x''" Map.empty]
  have p: "map (\<lambda>idx. ''x'' @ ''_'' @ format_02d idx @ ''.tfrecord'') [0..<nat 3]
           = [''x_00.tfrecord'', ''x_01.tfrecord'', ''x_02.tfrecord'']"
    by code_simp
  have f: "filepath ''x'' 0 = ''x_00.tfrecord''"
    by code_simp
  have r: "records_of ref_lib data4 (nat 3) 0
           = [SerializeToString ref_lib (labelled_example ref_lib (fst (data4 ! 0)) 0),
              SerializeToString ref_lib (labelled_example ref_lib (fst (data4 ! 3)) 3)]"
    by (simp add: records_of_def data4_def upt_rec)
  have k: "(0::nat) < nat 3" by simp
  from t k have "snd (save_tfrecords ref_lib ''x'' data4 3 Map.empty) (filepath ''x'' 0)
                 = Some (records_of ref_lib data4 (nat 3) 0)"
    by blast
  then have c2: "snd (save_tfrecords ref_lib ''x'' data4 3 Map.empty) ''x_00.tfrecord''
       = Some [SerializeToString ref_lib (labelled_example ref_lib (fst (data4 ! 0)) 0),
               SerializeToString ref_lib (labelled_example ref_lib (fst (data4 ! 3)) 3)]"
    by (simp only: f r)
  from t have "fst (save_tfrecords ref_lib ''x'' data4 3 Map.empty)
           = Inr (map (\<lambda>idx. ''x'' @ ''_'' @ format_02d idx @ ''.tfrecord'') [0..<nat 3])"
    by blast
  then have c1: "fst (save_tfrecords ref_lib ''x'' data4 3 Map.empty)
       = Inr [''x_00.tfrecord'', ''x_01.tfrecord'', ''x_02.tfrecord'']"
    by (simp only: p)
  from h l c1 c2 show ?thesis by blast
qed

text \<open>
  Claim C7 as stated fails: on a dataset of one element whose label is \<open>2 ^ 63\<close>,
  \<open>save_tfrecords\<close> with one file raises \<open>ValueError\<close> and returns no paths; the file
  it has opened stays empty.
\<close>

theorem save_tfrecords_round_robin_counterexample:
  "(1::int) \<le> 1
   \<and> fst (save_tfrecords ref_lib ''x'' [(fst (data4 ! 0), 9223372036854775808)] 1 Map.empty)
       = Inl ValueError
   \<and> snd (save_tfrecords ref_lib ''x'' [(fst (data4 ! 0), 9223372036854775808)] 1 Map.empty)
       ''x_00.tfrecord'' = Some []"
proof -
  have a: "fst (save_tfrecords ref_lib ''x'' [(fst (data4 ! 0), 9223372036854775808)] 1 Map.empty)
       = Inl ValueError"
    by code_simp
  have b: "snd (save_tfrecords ref_lib ''x'' [(fst (data4 ! 0), 9223372036854775808)] 1 Map.empty)
       ''x_00.tfrecord'' = Some []"
    by code_simp
  from a b show ?thesis by simp
qed

text \<open>
  Claim C6, as amended. \<open>save_tfrecords\<close> writes files: for \<open>n_records \<ge> 1\<close> (20 when
  the argument is left out) the file system then holds a file under each of the
  \<open>n_records\<close> names \<open>{name}_{idx:02d}.tfrecord\<close>, no other path is touched, and every
  record of these files is the serialization of an \<open>Example\<close> with the two features
  \<open>image\<close> (one bytes value: the serialized tensor) and \<open>label\<close> (one integer) of an
  element of the dataset.
\<close>

theorem save_tfrecords_writes_files:
  assumes "1 \<le> n_records"
  shows "dom (snd (save_tfrecords L name data n_records fs))
           = dom fs \<union> set (map (filepath name) [0..<nat n_records])
         \<and> (\<forall>p. p \<notin> set (map (filepath name) [0..<nat n_records]) \<longrightarrow>
               snd (save_tfrecords L name data n_records fs) p = fs p)
         \<and> (\<forall>k < nat n_records.
               \<forall>r \<in> set (contents (snd (save_tfrecords L name data n_records fs)) (filepath name k)).
                 \<exists>img label. (img, label) \<in> set data
                   \<and> r = SerializeToString L
                            [(''image'', BytesList [serialize_tensor L img]),
                             (''label'', Int64List [label])])"
  using save_tfrecords_frame [where L = L and name = name and data = data
      and n_records = n_records and fs = fs]
  by blast

theorem save_tfrecords_writes_files_witness:
  "(1::int) \<le> 20
   \<and> dom (snd (save_tfrecords ref_lib ''x'' data4 20 Map.empty))
       = dom (Map.empty :: filesystem) \<union> set (map (filepath ''x'') [0..<nat 20])
   \<and> (1::nat) < nat 20
   \<and> SerializeToString ref_lib (labelled_example ref_lib (fst (data4 ! 1)) 1)
       \<in> set (contents (snd (save_tfrecords ref_lib ''x'' data4 20 Map.empty)) (filepath ''x'' 1))
   \<and> (\<exists>img label. (img, label) \<in> set data4
        \<and> SerializeToString ref_lib (labelled_example ref_lib (fst (data4 ! 1)) 1)
          = SerializeToString ref_lib
              [(''image'', BytesList [serialize_tensor ref_lib img]), (''label'', Int64List [label])])"
proof -
  have h: "(1::int) \<le> 20" by simp
  have k: "(1::nat) < nat 20" by simp
  have l: "list_all (\<lambda>x. int64 (snd x)) data4"
    by (simp add: data4_def int64_def)
  note t = save_tfrecords_writes_files [OF h, of ref_lib "''x''" data4 Map.empty]
  have "records_of ref_lib data4 (nat 20) 1
        = [SerializeToString ref_lib (labelled_example ref_lib (fst (data4 ! 1)) 1)]"
    by (simp add: records_of_def data4_def upt_rec)
  with save_tfrecords_files(2) [OF h l k, of ref_lib "''x''" Map.empty]
  have m: "SerializeToString ref_lib (labelled_example ref_lib (fst (data4 ! 1)) 1)
       \<in> set (contents (snd (save_tfrecords ref_lib ''x'' data4 20 Map.empty)) (filepath ''x'' 1))"
    by (simp add: contents_def)
  from t k m have "\<exists>img label. (img, label) \<in> set data4
        \<and> SerializeToString ref_lib (labelled_example ref_lib (fst (data4 ! 1)) 1)
          = SerializeToString ref_lib
              [(''image'', BytesList [serialize_tensor ref_lib img]), (''label'', Int64List [label])]"
    by blast
  with t h k m show ?thesis by blast
qed

text \<open>
  Claim C6 as stated fails: called as in the notebook, with the default number of
  files, on an empty file system, \<open>save_tfrecords\<close> leaves a file named by its own
  scheme that holds the serialized example of the first element.
\<close>

theorem save_tfrecords_writes_files_counterexample:
  "snd (save_tfrecords_default ref_lib ''fashion_mnist-train'' data4 Map.empty)
     ''fashion_mnist-train_00.tfrecord''
     = Some [SerializeToString ref_lib
               [(''image'', BytesList [serialize_tensor ref_lib (fst (data4 ! 0))]),
                (''label'', Int64List [0])]]
   \<and> snd (save_tfrecords_default ref_lib ''fashion_mnist-train'' data4 Map.empty)
       \<noteq> (Map.empty :: filesystem)"
proof -
  have a: "snd (save_tfrecords_default ref_lib ''fashion_mnist-train'' data4 Map.empty)
     ''fashion_mnist-train_00.tfrecord''
     = Some [SerializeToString ref_lib
               [(''image'', BytesList [serialize_tensor ref_lib (fst (data4 ! 0))]),
                (''label'', Int64List [0])]]"
    by code_simp
  then have "snd (save_tfrecords_default ref_lib ''fashion_mnist-train'' data4 Map.empty)
       \<noteq> (Map.empty :: filesystem)"
    by (metis option.distinct(1))
  with a show ?thesis by blast
qed

section \<open>Properties of the reference instance\<close>

text \<open>
  The reference decoders invert the reference encoders on tensors and examples whose
  lengths fit the two-byte length fields.
\<close>

lemma unframe_frame:
  assumes "length s < 65536"
  shows "unframe (frame s @ r) = Some (s, r)"
proof -
  define n where "n = length s"
  have "n div 256 < 256" using assms by (simp add: n_def)
  then have hi: "n div 256 mod 256 = n div 256" by simp
  have "n div 256 * 256 + n mod 256 = n" by simp
  then show ?thesis
    by (simp add: frame_def n_def [symmetric] hi Let_def)
qed

lemma ref_tensor_round_trip:
  assumes "length (t_shape t) < 65536"
    and "\<forall>d \<in> set (t_shape t). d < 256"
    and "\<forall>v \<in> set (t_data t). 0 \<le> v \<and> v < 256"
    and "length (t_data t) = prod_list (t_shape t)"
  shows "ref_parse_tensor (ref_serialize_tensor t) (t_dtype t) = Inr t"
proof -
  have code: "dtype_code (t_dtype t) mod 256 = dtype_code (t_dtype t)"
    by (cases "t_dtype t") (simp_all add: dtype_code_def)
  have "map (\<lambda>d. d mod 256) (t_shape t) = map (\<lambda>d. d) (t_shape t)"
    by (rule map_cong [OF refl]) (use assms(2) in auto)
  then have dims: "map of_char (map char_of (t_shape t) :: string) = t_shape t"
    by (simp add: comp_def)
  have "map (\<lambda>v. int (nat v mod 256)) (t_data t) = map (\<lambda>v. v) (t_data t)"
    by (rule map_cong [OF refl]) (use assms(3) in auto)
  then have vals: "map (\<lambda>c. int (of_char c)) (map (\<lambda>v. char_of (nat v)) (t_data t) :: string) = t_data t"
    by (simp add: comp_def)
  have u: "unframe (frame (map char_of (t_shape t)) @ map (\<lambda>v. char_of (nat v)) (t_data t))
           = Some (map char_of (t_shape t), map (\<lambda>v. char_of (nat v)) (t_data t))"
    using assms(1) by (intro unframe_frame) simp
  show ?thesis
    unfolding ref_parse_tensor_def ref_serialize_tensor_def
    using assms(4) by (simp add: code u dims vals del: map_map)
qed

lemma length_frame: "length (frame s) = length s + 2"
  by (simp add: frame_def)

lemma unframe_all_step:
  "unframe_all (Suc fuel) (frame v @ rest)
   = (case unframe (frame v @ rest) of
        None \<Rightarrow> None
      | Some (x, rest') \<Rightarrow> map_option ((#) x) (unframe_all fuel rest'))"
  by (simp add: frame_def)

lemma unframe_all_frames:
  "\<forall>v \<in> set vs. length v < 65536 \<Longrightarrow> length vs \<le> fuel \<Longrightarrow>
   unframe_all fuel (concat (map frame vs)) = Some vs"
proof (induction vs arbitrary: fuel)
  case Nil
  show ?case by simp
next
  case (Cons v vs)
  then obtain fuel' where fuel: "fuel = Suc fuel'" and "length vs \<le> fuel'"
    by (cases fuel) auto
  with Cons show ?case
    by (simp add: unframe_all_step unframe_frame del: unframe.simps)
qed

lemma length_concat_frames: "length vs \<le> length (concat (map frame vs))"
  by (induction vs) (simp_all add: length_frame)

lemma dec_feature_BytesList:
  "\<forall>v \<in> set vs. length v < 65536 \<Longrightarrow>
   dec_feature (feature_tag (BytesList vs)) (feature_payload (BytesList vs)) = Some (BytesList vs)"
  by (simp add: dec_feature_def unframe_all_frames length_concat_frames)

lemma dec_example_step:
  assumes "length key < 65536" and "length (feature_payload f) < 65536"
    and "dec_feature (feature_tag f) (feature_payload f) = Some f"
  shows "dec_example (Suc fuel) (frame key @ enc_feature f @ rest)
         = map_option ((#) (key, f)) (dec_example fuel rest)"
proof -
  have s: "frame key @ enc_feature f @ rest
           = frame key @ (feature_tag f # (frame (feature_payload f) @ rest))"
    by (simp add: enc_feature_def)
  obtain c cs where c: "frame key @ (feature_tag f # (frame (feature_payload f) @ rest)) = c # cs"
    by (simp add: frame_def)
  have u1: "unframe (c # cs) = Some (key, feature_tag f # (frame (feature_payload f) @ rest))"
    unfolding c [symmetric] using assms(1) by (rule unframe_frame)
  have u2: "unframe (frame (feature_payload f) @ rest) = Some (feature_payload f, rest)"
    using assms(2) by (rule unframe_frame)
  show ?thesis
    unfolding s c by (simp add: u1 u2 assms(3) del: unframe.simps)
qed

lemma dec_example_features:
  "\<forall>(key, f) \<in> set ex. length key < 65536 \<and> length (feature_payload f) < 65536
      \<and> dec_feature (feature_tag f) (feature_payload f) = Some f \<Longrightarrow>
   length ex \<le> fuel \<Longrightarrow>
   dec_example fuel (ref_SerializeToString ex) = Some ex"
proof (induction ex arbitrary: fuel)
  case Nil
  show ?case by (simp add: ref_SerializeToString_def)
next
  case (Cons kf ex)
  obtain key f where kf: "kf = (key, f)" by (cases kf)
  from Cons.prems obtain fuel' where fuel: "fuel = Suc fuel'" and le: "length ex \<le> fuel'"
    by (cases fuel) auto
  from Cons.prems(1) have ok: "length key < 65536" "length (feature_payload f) < 65536"
      "dec_feature (feature_tag f) (feature_payload f) = Some f"
    by (simp_all add: kf)
  from Cons.prems(1) have rest: "\<forall>(key, f) \<in> set ex. length key < 65536 \<and> length (feature_payload f) < 65536
      \<and> dec_feature (feature_tag f) (feature_payload f) = Some f"
    by simp
  have "ref_SerializeToString (kf # ex) = frame key @ enc_feature f @ ref_SerializeToString ex"
    by (simp add: ref_SerializeToString_def kf)
  then show ?case
    by (simp add: fuel dec_example_step [OF ok] Cons.IH [OF rest le] kf)
qed

lemma length_ref_SerializeToString: "length ex \<le> length (ref_SerializeToString ex)"
  by (induction ex) (auto simp: ref_SerializeToString_def length_frame)

lemma ref_example_round_trip:
  assumes "\<forall>(key, f) \<in> set ex. length key < 65536 \<and> length (feature_payload f) < 65536
      \<and> dec_feature (feature_tag f) (feature_payload f) = Some f"
  shows "ParseFromString ref_lib (SerializeToString ref_lib ex) = Some ex"
  using dec_example_features [OF assms length_ref_SerializeToString]
  by (simp add: ref_lib_def ref_ParseFromString_def)

lemma length_enc_int64: "length (enc_int64 v) = 8"
  by (simp add: enc_int64_def)

lemma dec_feature_Int64List_7:
  "dec_feature (feature_tag (Int64List [7])) (feature_payload (Int64List [7])) = Some (Int64List [7])"
  by code_simp

lemma ref_parse_image0:
  "parse_tensor ref_lib (serialize_tensor ref_lib image0) DT_UINT8 = Inr image0"
proof -
  have "ref_parse_tensor (ref_serialize_tensor image0) (t_dtype image0) = Inr image0"
    by (rule ref_tensor_round_trip) (auto simp: image0_def)
  then show ?thesis by (simp add: ref_lib_def image0_def)
qed

lemma length_serialized_image0: "length (serialize_tensor ref_lib image0) = 789"
  by (simp add: ref_lib_def ref_serialize_tensor_def image0_def length_frame)

lemma ref_parse_example_image0:
  "ParseFromString ref_lib (SerializeToString ref_lib (labelled_example ref_lib image0 7))
   = Some (labelled_example ref_lib image0 7)"
  by (rule ref_example_round_trip)
    (simp add: labelled_example_def dec_feature_BytesList dec_feature_Int64List_7 length_serialized_image0
       del: feature_payload.simps feature_tag.simps,
     simp add: length_frame length_serialized_image0 length_enc_int64)



section \<open>Properties of the TFRecord reader\<close>

text \<open>
  Once the record is decoded and the two described features are read (from the record
  or from their defaults), \<open>preprocess\<close> parses and reshapes the image bytes.
\<close>

lemma preprocess_decoded:
  assumes "ParseFromString L tfrecord = Some ex"
    and "parse_feature ex (FixedLenFeature [] DT_STRING (Some (PBytes ['''']))) ''image''
         = Inr (PBytes [b])"
    and "parse_feature ex (FixedLenFeature [] DT_INT64 (Some (PInt64 [- 1]))) ''label''
         = Inr (PInt64 [l])"
  shows "preprocess L tfrecord = image_and_label L b l"
proof -
  have "parse_single_example L tfrecord feature_descriptions
        = Inr [(''image'', PBytes [b]), (''label'', PInt64 [l])]"
    using assms by (simp add: parse_single_example_def feature_descriptions_def del: parse_feature.simps)
  then show ?thesis
    by (simp add: preprocess_def image_and_label_def)
qed






lemma image_and_label_round_trip:
  assumes "parse_tensor L b DT_UINT8 = Inr img" and "prod_list (t_shape img) = 28 * 28"
  shows "image_and_label L b l = Inr (img\<lparr>t_shape := [28, 28]\<rparr>, l)"
  using assms by (simp add: image_and_label_def reshape_def)

lemma preprocess_labelled_example:
  assumes "ParseFromString L (SerializeToString L (labelled_example L img label))
           = Some (labelled_example L img label)"
  shows "preprocess L (SerializeToString L (labelled_example L img label))
         = image_and_label L (serialize_tensor L img) label"
  by (rule preprocess_decoded [OF assms]) (simp_all add: labelled_example_def)

text \<open>
  Claim C2, as amended. \<open>create_example\<close> and \<open>preprocess\<close> are a round-trip pair: for
  an image of 28 by 28 elements and a label that is a signed 64-bit integer,
  \<open>create_example\<close> returns the example of the image and the label, and when the
  library's \<open>parse_tensor\<close> inverts \<open>serialize_tensor\<close> on the image and its decoder
  inverts \<open>SerializeToString\<close> on the example, \<open>preprocess\<close> of the serialized example
  returns the image, with shape \<open>[28, 28]\<close>, and the label.
\<close>

theorem create_example_preprocess_round_trip:
  assumes "int64 label"
    and "parse_tensor L (serialize_tensor L img) DT_UINT8 = Inr img"
    and "ParseFromString L (SerializeToString L (labelled_example L img label))
         = Some (labelled_example L img label)"
    and "prod_list (t_shape img) = 28 * 28"
  shows "create_example L img label = Inr (labelled_example L img label)
         \<and> preprocess L (SerializeToString L (labelled_example L img label))
             = Inr (img\<lparr>t_shape := [28, 28]\<rparr>, label)"
proof -
  have "preprocess L (SerializeToString L (labelled_example L img label))
        = image_and_label L (serialize_tensor L img) label"
    using assms(3) by (rule preprocess_labelled_example)
  also have "\<dots> = Inr (img\<lparr>t_shape := [28, 28]\<rparr>, label)"
    using assms(2,4) by (rule image_and_label_round_trip)
  finally show ?thesis
    using create_example_int64 [OF assms(1), of L img] by simp
qed

theorem create_example_preprocess_round_trip_witness:
  "int64 7
   \<and> parse_tensor ref_lib (serialize_tensor ref_lib image0) DT_UINT8 = Inr image0
   \<and> ParseFromString ref_lib (SerializeToString ref_lib (labelled_example ref_lib image0 7))
       = Some (labelled_example ref_lib image0 7)
   \<and> prod_list (t_shape image0) = 28 * 28
   \<and> create_example ref_lib image0 7 = Inr (labelled_example ref_lib image0 7)
   \<and> preprocess ref_lib (SerializeToString ref_lib (labelled_example ref_lib image0 7))
       = Inr (image0\<lparr>t_shape := [28, 28]\<rparr>, 7)"
proof -
  have h1: "int64 7" by (simp add: int64_def)
  have h4: "prod_list (t_shape image0) = 28 * 28" by (simp add: image0_def)
  from create_example_preprocess_round_trip [OF h1 ref_parse_image0 ref_parse_example_image0 h4]
    h1 ref_parse_image0 ref_parse_example_image0 h4
  show ?thesis by blast
qed

text \<open>
  Claim C2 as stated fails: on a 28 by 28 image and the label 7, parsing the serialized
  example gives back the image and the label.
\<close>

theorem create_example_preprocess_counterexample:
  "create_example ref_lib image0 7 = Inr (labelled_example ref_lib image0 7)
   \<and> preprocess ref_lib (SerializeToString ref_lib (labelled_example ref_lib image0 7))
       = Inr (image0, 7)"
proof -
  have "preprocess ref_lib (SerializeToString ref_lib (labelled_example ref_lib image0 7))
        = image_and_label ref_lib (serialize_tensor ref_lib image0) 7"
    using ref_parse_example_image0 by (rule preprocess_labelled_example)
  also have "\<dots> = Inr (image0\<lparr>t_shape := [28, 28]\<rparr>, 7)"
    by (rule image_and_label_round_trip [OF ref_parse_image0]) (simp add: image0_def)
  also have "image0\<lparr>t_shape := [28, 28]\<rparr> = image0"
    by (simp add: image0_def)
  finally have "preprocess ref_lib (SerializeToString ref_lib (labelled_example ref_lib image0 7))
        = Inr (image0, 7)" .
  moreover have "create_example ref_lib image0 7 = Inr (labelled_example ref_lib image0 7)"
    by (rule create_example_int64) (simp add: int64_def)
  ultimately show ?thesis by simp
qed




end
